theory Spec2Isabelle
  imports Complex_Main "HOL-Library.Sublist" "HOL-Library.AList"
begin

section \<open>JavaScript values used by the pipeline\<close>

text \<open>
  Strings are lists of characters with code points below 256 (the Latin-1 part of a
  JavaScript string). A property that may be missing from an object (\<^verbatim>\<open>undefined\<close>)
  is an \<open>option\<close>. The operator \<^verbatim>\<open>a || b\<close> on such values takes \<open>a\<close> when it is
  truthy, that is present and not the empty string.

  Several interfaces of the source share property names. The fields of each record
  therefore carry a short prefix for their interface (\<open>q_\<close>, \<open>ia_\<close>, \<open>s3_\<close>, \<open>c3_\<close>,
  \<open>s4_\<close>, \<open>c4_\<close>, \<open>ex_\<close>, \<open>r_\<close>, ...); what follows the prefix is the property name
  of the source.
\<close>

definition truthy :: "string option \<Rightarrow> bool" where
  "truthy v = (case v of None \<Rightarrow> False | Some s \<Rightarrow> s \<noteq> [])"

definition or_else :: "string option \<Rightarrow> string option \<Rightarrow> string option" where
  "or_else a b = (if truthy a then a else b)"

definition or_str :: "string option \<Rightarrow> string \<Rightarrow> string" where
  "or_str a d = (case a of None \<Rightarrow> d | Some s \<Rightarrow> if s = [] then d else s)"

text \<open>
  \<^verbatim>\<open>String.prototype.toLowerCase\<close> on code points below 256: the letters A to Z and the
  accented capitals U+00C0 to U+00DE (without the multiplication sign U+00D7) move up
  by 32, every other character stays.
\<close>

definition lowerChar :: "char \<Rightarrow> char" where
  "lowerChar c =
     (let n = (of_char c :: nat)
      in if (65 \<le> n \<and> n \<le> 90) \<or> (192 \<le> n \<and> n \<le> 222 \<and> n \<noteq> 215)
         then char_of (n + 32) else c)"

definition toLowerCase :: "string \<Rightarrow> string" where
  "toLowerCase s = map lowerChar s"

text \<open>\<^verbatim>\<open>s.includes(sub)\<close>: \<open>sub\<close> occurs in \<open>s\<close> as a contiguous block.\<close>

fun includes_str :: "string \<Rightarrow> string \<Rightarrow> bool" where
  "includes_str [] sub = (sub = [])"
| "includes_str (c # cs) sub = (prefix sub (c # cs) \<or> includes_str cs sub)"

text \<open>
  \<^verbatim>\<open>String.prototype.trim\<close> removes white space and line terminators from both ends;
  below 256 these are tab, line feed, vertical tab, form feed, carriage return, space
  and the no-break space.
\<close>

definition isWhiteSpace :: "char \<Rightarrow> bool" where
  "isWhiteSpace c = ((of_char c :: nat) \<in> {9, 10, 11, 12, 13, 32, 160})"

definition trim :: "string \<Rightarrow> string" where
  "trim s = rev (dropWhile isWhiteSpace (rev (dropWhile isWhiteSpace s)))"


section \<open>The keyword classifier of the Express routes\<close>

text \<open>
  A question as the upload step produces it and as the routes read it. The source
  reads \<^verbatim>\<open>id\<close>, \<^verbatim>\<open>questionNumber\<close>, \<^verbatim>\<open>process\<close>, \<^verbatim>\<open>subProcess\<close>,
  \<^verbatim>\<open>question\<close> and \<^verbatim>\<open>text\<close>; each may be missing.
\<close>

record Question =
  q_id :: "string option"
  q_questionNumber :: "string option"
  q_process :: "string option"
  q_subProcess :: "string option"
  q_question :: "string option"
  q_text :: "string option"

text \<open>\<^verbatim>\<open>(question.question || question.text || '').toLowerCase()\<close>\<close>

definition questionText :: "Question \<Rightarrow> string" where
  "questionText q = toLowerCase (or_str (or_else (q_question q) (q_text q)) [])"

definition determineToolSuggestion :: "Question \<Rightarrow> string" where
  "determineToolSuggestion q =
     (let text = questionText q
      in if includes_str text ''database'' \<or> includes_str text ''sql'' \<or> includes_str text ''table''
         then ''SQL Server''
         else if includes_str text ''email'' \<or> includes_str text ''outlook'' \<or> includes_str text ''exchange''
         then ''Outlook''
         else if includes_str text ''servicenow'' \<or> includes_str text ''snow'' \<or> includes_str text ''ticket''
         then ''ServiceNow''
         else if includes_str text ''file'' \<or> includes_str text ''document'' \<or> includes_str text ''nas''
         then ''NAS Path''
         else if includes_str text ''gnosis'' \<or> includes_str text ''knowledge''
         then ''Gnosis Path''
         else ''Manual Review'')"

definition determineConnector :: "Question \<Rightarrow> string" where
  "determineConnector q =
     (let suggestion = determineToolSuggestion q
      in if suggestion = ''SQL Server'' then ''sql_server''
         else if suggestion = ''Outlook'' then ''outlook''
         else if suggestion = ''ServiceNow'' then ''servicenow''
         else if suggestion = ''NAS Path'' then ''nas_path''
         else if suggestion = ''Gnosis Path'' then ''gnosis_path''
         else ''manual'')"

text \<open>The values \<^verbatim>\<open>determineConnector\<close> can return, in the order of its cases.\<close>

definition ruleConnectors :: "string list" where
  "ruleConnectors =
     [''sql_server'', ''outlook'', ''servicenow'', ''nas_path'', ''gnosis_path'', ''manual'']"

text \<open>A question that carries only the \<^verbatim>\<open>question\<close> property.\<close>

definition plainQuestion :: "string \<Rightarrow> Question" where
  "plainQuestion s =
     \<lparr>q_id = None, q_questionNumber = None, q_process = None, q_subProcess = None,
      q_question = Some s, q_text = None\<rparr>"


text \<open>
  The documented rule order, as keyword sets, and the suggestion the source returns for
  each rule (the last entry is the fallback). \<open>firstMatch\<close> is the position of the
  first rule with a keyword in the text, or the number of rules when none matches.
\<close>

definition documentedRules :: "string list list" where
  "documentedRules =
     [[''database'', ''sql'', ''table''],
      [''email'', ''outlook'', ''exchange''],
      [''servicenow'', ''snow'', ''ticket''],
      [''file'', ''document'', ''nas''],
      [''gnosis'', ''knowledge'']]"

definition ruleSuggestions :: "string list" where
  "ruleSuggestions =
     [''SQL Server'', ''Outlook'', ''ServiceNow'', ''NAS Path'', ''Gnosis Path'',
      ''Manual Review'']"

fun firstMatch :: "string list list \<Rightarrow> string \<Rightarrow> nat" where
  "firstMatch [] txt = 0"
| "firstMatch (keys # rules) txt =
     (if list_ex (includes_str txt) keys then 0 else Suc (firstMatch rules txt))"


section \<open>The analysis route and its storage\<close>

text \<open>
  A row of \<^verbatim>\<open>question_analyses\<close> as the route builds it
  (\<^verbatim>\<open>InsertQuestionAnalysis\<close>). The columns the database generates, \<^verbatim>\<open>id\<close> and
  \<^verbatim>\<open>created_at\<close>, are not part of the row.
\<close>

record InsertQuestionAnalysis =
  ia_applicationId :: "int option"
  ia_questionId :: "string option"
  ia_originalQuestion :: "string option"
  ia_category :: string
  ia_subcategory :: "string option"
  ia_aiPrompt :: string
  ia_toolSuggestion :: string
  ia_connectorReason :: string
  ia_connectorToUse :: string

text \<open>The object built for each question in \<^verbatim>\<open>questions.map(...)\<close>.\<close>

definition buildAnalysis :: "int option \<Rightarrow> Question \<Rightarrow> InsertQuestionAnalysis" where
  "buildAnalysis appId q =
     \<lparr>ia_applicationId = appId,
      ia_questionId = q_id q,
      ia_originalQuestion = or_else (q_question q) (q_text q),
      ia_category = or_str (q_process q) ''General'',
      ia_subcategory = or_else (q_subProcess q) None,
      ia_aiPrompt = ''Analyze the question: '' @ [CHR 0x22]
         @ (case or_else (q_question q) (q_text q) of None \<Rightarrow> ''undefined'' | Some s \<Rightarrow> s)
         @ [CHR 0x22],
      ia_toolSuggestion = determineToolSuggestion q,
      ia_connectorReason = ''Based on the question content and category '' @ [CHR 0x22]
         @ or_str (q_process q) ''General'' @ [CHR 0x22],
      ia_connectorToUse = determineConnector q\<rparr>"

text \<open>
  \<^verbatim>\<open>createQuestionAnalyses\<close> is one \<^verbatim>\<open>INSERT ... RETURNING\<close> of all rows. The table
  has \<^verbatim>\<open>NOT NULL\<close> on \<^verbatim>\<open>question_id\<close> and \<^verbatim>\<open>original_question\<close>, the two columns
  the route can leave undefined, and the unique index \<^verbatim>\<open>unique_application_question\<close>
  on \<^verbatim>\<open>(application_id, question_id)\<close>, in which rows with a null application id
  never collide. \<^verbatim>\<open>application_id\<close> references \<^verbatim>\<open>applications(id)\<close>; that
  reference is checked once the rows are in. The statement is atomic: it adds every
  row or fails and adds none. An empty list of values is refused before any SQL is
  sent.
\<close>

datatype DbError = EmptyValues | NotNullViolation | UniqueViolation | ForeignKeyViolation

type_synonym Table = "InsertQuestionAnalysis list"

text \<open>The database: the ids of the rows of \<^verbatim>\<open>applications\<close> and the analysis table.\<close>

record Database =
  db_applications :: "int list"
  db_questionAnalyses :: Table

definition sameKey :: "InsertQuestionAnalysis \<Rightarrow> InsertQuestionAnalysis \<Rightarrow> bool" where
  "sameKey r a =
     (ia_applicationId r \<noteq> None \<and> ia_applicationId r = ia_applicationId a
      \<and> ia_questionId r = ia_questionId a)"

fun insertRows :: "InsertQuestionAnalysis list \<Rightarrow> Table \<Rightarrow> DbError + Table" where
  "insertRows [] tbl = Inr tbl"
| "insertRows (a # rest) tbl =
     (if ia_questionId a = None \<or> ia_originalQuestion a = None then Inl NotNullViolation
      else if list_ex (\<lambda>r. sameKey r a) tbl then Inl UniqueViolation
      else insertRows rest (tbl @ [a]))"

definition referencesApplication :: "int list \<Rightarrow> InsertQuestionAnalysis \<Rightarrow> bool" where
  "referencesApplication ids a =
     (case ia_applicationId a of None \<Rightarrow> True | Some i \<Rightarrow> i \<in> set ids)"

definition createQuestionAnalyses ::
  "InsertQuestionAnalysis list \<Rightarrow> Database \<Rightarrow> DbError + Database" where
  "createQuestionAnalyses analyses db =
     (if analyses = [] then Inl EmptyValues
      else case insertRows analyses (db_questionAnalyses db) of
             Inl e \<Rightarrow> Inl e
           | Inr tbl' \<Rightarrow>
               if list_all (referencesApplication (db_applications db)) analyses
               then Inr (db\<lparr>db_questionAnalyses := tbl'\<rparr>)
               else Inl ForeignKeyViolation)"

text \<open>
  \<^verbatim>\<open>POST /questions/analyze\<close>. A body without \<^verbatim>\<open>questions\<close> makes
  \<^verbatim>\<open>questions.map\<close> raise; every raise inside the handler ends in the status 500
  reply and leaves the database as it was.
\<close>

record AnalyzeBody =
  body_applicationId :: "int option"
  body_questions :: "Question list option"

datatype RouteReply = Json "InsertQuestionAnalysis list" | Status500 string

definition analyzeRoute :: "AnalyzeBody \<Rightarrow> Database \<Rightarrow> RouteReply \<times> Database" where
  "analyzeRoute body db =
     (case body_questions body of
        None \<Rightarrow> (Status500 ''Failed to analyze questions'', db)
      | Some questions \<Rightarrow>
          (let analyses = map (buildAnalysis (body_applicationId body)) questions
           in case createQuestionAnalyses analyses db of
                Inl e \<Rightarrow> (Status500 ''Failed to analyze questions'', db)
              | Inr db' \<Rightarrow> (Json analyses, db')))"


section \<open>Step three of the wizard: question analysis\<close>

text \<open>
  A value of type \<^verbatim>\<open>string | string[]\<close>: \<^verbatim>\<open>Array.isArray\<close> tells the two apart.
\<close>

datatype ToolSelection = Single string | Multiple "string list"

text \<open>The \<^verbatim>\<open>QuestionAnalysis\<close> interface of step three.\<close>

record QuestionAnalysis =
  s3_questionId :: string
  s3_originalQuestion :: string
  s3_category :: string
  s3_subcategory :: string
  s3_aiPrompt :: string
  s3_toolSuggestion :: ToolSelection
  s3_connectorReason :: string
  s3_connectorToUse :: ToolSelection

text \<open>
  The \<^verbatim>\<open>ToolConnector\<close> interface of step three; the \<^verbatim>\<open>configuration\<close> payload is
  opaque text.
\<close>

record ToolConnector3 =
  c3_id :: int
  c3_connector_type :: string
  c3_ciId :: string
  c3_configuration :: string
  c3_status :: string

definition AVAILABLE_TOOLS :: "(string \<times> string) list" where
  "AVAILABLE_TOOLS =
     [(''SQL Server DB'', ''SQL Server DB''),
      (''Oracle DB'', ''Oracle DB''),
      (''Gnosis Document Repository'', ''Gnosis Document Repository''),
      (''Jira'', ''Jira''),
      (''QTest'', ''QTest''),
      (''ServiceNow'', ''ServiceNow'')]"

definition TOOL_ID_MAPPING :: "(string \<times> string) list" where
  "TOOL_ID_MAPPING =
     [(''sql_server'', ''SQL Server DB''),
      (''oracle_db'', ''Oracle DB''),
      (''gnosis'', ''Gnosis Document Repository''),
      (''jira'', ''Jira''),
      (''qtest'', ''QTest''),
      (''service_now'', ''ServiceNow'')]"

text \<open>
  \<^verbatim>\<open>TOOL_ID_MAPPING\<close> is an object literal, so a lookup that misses its own keys
  continues on \<^verbatim>\<open>Object.prototype\<close>. These are the property names found there; each
  holds a function or an object, which is truthy and equal to no string.
\<close>

definition objectPrototypeKeys :: "string list" where
  "objectPrototypeKeys =
     [''constructor'', ''hasOwnProperty'', ''isPrototypeOf'', ''propertyIsEnumerable'',
      ''toLocaleString'', ''toString'', ''valueOf'', ''__proto__'', ''__defineGetter__'',
      ''__defineSetter__'', ''__lookupGetter__'', ''__lookupSetter__'']"

text \<open>
  \<^verbatim>\<open>TOOL_ID_MAPPING[tool] || tool\<close>, as far as \<^verbatim>\<open>===\<close> against a string can tell:
  \<open>Some s\<close> is the string \<open>s\<close>, \<open>None\<close> is a value that is not a string.
\<close>

definition mappedToolType :: "string \<Rightarrow> string option" where
  "mappedToolType tool =
     (case map_of TOOL_ID_MAPPING tool of
        Some v \<Rightarrow> Some v
      | None \<Rightarrow> if tool \<in> set objectPrototypeKeys then None else Some tool)"

text \<open>The tool-type vocabulary of the wizard: the display names and the legacy ids.\<close>

definition toolVocabulary :: "string list" where
  "toolVocabulary = map fst AVAILABLE_TOOLS @ map fst TOOL_ID_MAPPING"

text \<open>The readiness gate: the value the effect passes to \<^verbatim>\<open>setCanProceed\<close>.\<close>

definition toolSuggestions :: "ToolSelection \<Rightarrow> string list" where
  "toolSuggestions sel = (case sel of Single tool \<Rightarrow> [tool] | Multiple tools \<Rightarrow> tools)"

definition toolConfigured :: "ToolConnector3 list \<Rightarrow> string \<Rightarrow> bool" where
  "toolConfigured connectors tool =
     (let connectorExists = list_ex (\<lambda>c. Some (c3_connector_type c) = mappedToolType tool) connectors
      in connectorExists \<and> tool \<noteq> [] \<and> trim tool \<noteq> [])"

definition canProceedStepThree :: "QuestionAnalysis list \<Rightarrow> ToolConnector3 list \<Rightarrow> bool \<Rightarrow> bool" where
  "canProceedStepThree analyses connectors isSaved =
     (let hasAnalyses = (length analyses > 0);
          allQuestionsConfigured =
            list_all (\<lambda>analysis.
               list_all (toolConfigured connectors) (toolSuggestions (s3_toolSuggestion analysis)))
              analyses
      in hasAnalyses \<and> allQuestionsConfigured \<and> isSaved)"

text \<open>\<^verbatim>\<open>getConnectorStatus\<close>: the first connector of exactly this type, if any.\<close>

definition getConnectorStatus :: "ToolConnector3 list \<Rightarrow> string \<Rightarrow> bool \<times> string" where
  "getConnectorStatus connectors toolType =
     (case find (\<lambda>c. c3_connector_type c = toolType) connectors of
        None \<Rightarrow> (False, ''not_configured'')
      | Some connector \<Rightarrow> (True, or_str (Some (c3_status connector)) ''not_configured''))"

text \<open>The component state the edit handlers write.\<close>

record StepThreeState =
  st_analyses :: "QuestionAnalysis list"
  st_isSaved :: bool
  st_hasUnsavedChanges :: bool

definition mapIndexed :: "(nat \<Rightarrow> 'a \<Rightarrow> 'b) \<Rightarrow> 'a list \<Rightarrow> 'b list" where
  "mapIndexed f xs = map (\<lambda>(idx, x). f idx x) (enumerate 0 xs)"

definition handleToolChange :: "string \<Rightarrow> string \<Rightarrow> nat \<Rightarrow> StepThreeState \<Rightarrow> StepThreeState" where
  "handleToolChange questionId newTool index st =
     st\<lparr>st_analyses := mapIndexed (\<lambda>idx analysis.
            if idx = index
            then analysis\<lparr>s3_toolSuggestion := Single newTool,
                          s3_connectorToUse :=
                            (case s3_toolSuggestion analysis of
                               Multiple ts \<Rightarrow> Multiple [] | Single t \<Rightarrow> Single [])\<rparr>
            else analysis) (st_analyses st),
        st_hasUnsavedChanges := True,
        st_isSaved := False\<rparr>"

definition handleConnectorChange :: "string \<Rightarrow> string \<Rightarrow> nat \<Rightarrow> StepThreeState \<Rightarrow> StepThreeState" where
  "handleConnectorChange questionId connectorName index st =
     st\<lparr>st_analyses := mapIndexed (\<lambda>idx analysis.
            if idx = index
            then analysis\<lparr>s3_connectorToUse :=
                            (case s3_toolSuggestion analysis of
                               Multiple ts \<Rightarrow> s3_toolSuggestion analysis
                             | Single t \<Rightarrow> s3_toolSuggestion analysis)\<rparr>
            else analysis) (st_analyses st),
        st_hasUnsavedChanges := True,
        st_isSaved := False\<rparr>"

text \<open>
  The analysis mutation. Each question comes with what its call to
  \<^verbatim>\<open>/api/questions/analyze\<close> does: it raises (the request fails or the body cannot be
  read), or it yields a body whose \<^verbatim>\<open>analyses\<close> property is missing or a list.
\<close>

datatype AnalyzeReply = Throws | Replies "QuestionAnalysis list option"

definition fallbackAnalysis :: "Question \<Rightarrow> QuestionAnalysis" where
  "fallbackAnalysis question =
     \<lparr>s3_questionId = or_str (q_id question) [],
      s3_originalQuestion = or_str (q_question question) [],
      s3_category = or_str (q_process question) ''General'',
      s3_subcategory = or_str (q_subProcess question) ''Unknown'',
      s3_aiPrompt = ''Analyze audit question: '' @ or_str (q_question question) [],
      s3_toolSuggestion = Single ''SQL Server DB'',
      s3_connectorReason = ''Fallback due to analysis error'',
      s3_connectorToUse = Single ''SQL Server DB''\<rparr>"

text \<open>
  The loop state: the list being filled, \<^verbatim>\<open>processedCount\<close>, and the reports made to
  \<^verbatim>\<open>setAnalysisProgress\<close>, each kept as the pair (processedCount, totalQuestions) whose
  rounded percentage the source passes on.
\<close>

record AnalyzeLoop =
  loop_analyses :: "QuestionAnalysis list"
  loop_processedCount :: nat
  loop_progressReports :: "(nat \<times> nat) list"

definition analyzeStep :: "nat \<Rightarrow> Question \<times> AnalyzeReply \<Rightarrow> AnalyzeLoop \<Rightarrow> AnalyzeLoop" where
  "analyzeStep totalQuestions call st =
     (case call of
        (question, Replies result) \<Rightarrow>
          st\<lparr>loop_analyses :=
                (case result of
                   Some (first # rest) \<Rightarrow> loop_analyses st @ [first]
                 | _ \<Rightarrow> loop_analyses st),
              loop_processedCount := loop_processedCount st + 1,
              loop_progressReports :=
                loop_progressReports st @ [(loop_processedCount st + 1, totalQuestions)]\<rparr>
      | (question, Throws) \<Rightarrow>
          st\<lparr>loop_analyses := loop_analyses st @ [fallbackAnalysis question],
              loop_processedCount := loop_processedCount st + 1,
              loop_progressReports :=
                loop_progressReports st @ [(loop_processedCount st + 1, totalQuestions)]\<rparr>)"

definition analyzeQuestions :: "(Question \<times> AnalyzeReply) list \<Rightarrow> AnalyzeLoop" where
  "analyzeQuestions calls =
     fold (analyzeStep (length calls)) calls
       \<lparr>loop_analyses = [], loop_processedCount = 0, loop_progressReports = []\<rparr>"

text \<open>The value the mutation resolves to: \<^verbatim>\<open>{ analyses, total: analyses.length }\<close>.\<close>

definition mutationResult :: "(Question \<times> AnalyzeReply) list \<Rightarrow> QuestionAnalysis list \<times> nat" where
  "mutationResult calls =
     (let result = loop_analyses (analyzeQuestions calls) in (result, length result))"


section \<open>Step four of the wizard: agent execution\<close>

text \<open>
  The \<^verbatim>\<open>QuestionAnalysis\<close> interface of step four. \<^verbatim>\<open>prompt\<close> and
  \<^verbatim>\<open>originalQuestion\<close> may be missing: the source reads them through \<^verbatim>\<open>||\<close>.
\<close>

record StepFourAnalysis =
  s4_id :: string
  s4_originalQuestion :: "string option"
  s4_category :: string
  s4_subcategory :: string
  s4_prompt :: "string option"
  s4_toolSuggestion :: string
  s4_connectorReason :: string
  s4_connectorToUse :: string

record ToolConnector =
  c4_id :: int
  c4_connectorName :: string
  c4_connectorType :: string
  c4_ciId :: string
  c4_configuration :: string
  c4_status :: string

datatype Status = pending | running | completed | failed | no_connector

type_synonym Finding = "string \<times> string option"

text \<open>
  The \<^verbatim>\<open>result\<close> object of a completed execution; \<^verbatim>\<open>timestamp\<close> is kept as the
  clock reading whose ISO text the source stores.
\<close>

record ExecutionResult =
  r_data :: string
  r_records :: int
  r_source :: string
  r_timestamp :: nat
  r_findings :: "Finding list"
  r_riskLevel :: string
  r_complianceStatus :: string

text \<open>
  \<^verbatim>\<open>AgentExecution\<close>. The source builds each entry as
  \<^verbatim>\<open>{...prev[analysis.id], field: value, ...}\<close>, so an entry holds only the properties
  written so far: every field is optional, and \<open>emptyExecution\<close> is what spreading
  a missing entry gives.
\<close>

record AgentExecution =
  ex_questionId :: "string option"
  ex_status :: "Status option"
  ex_result :: "ExecutionResult option"
  ex_error :: "string option"
  ex_progress :: "nat option"
  ex_startTime :: "nat option"
  ex_endTime :: "nat option"

definition emptyExecution :: AgentExecution where
  "emptyExecution =
     \<lparr>ex_questionId = None, ex_status = None, ex_result = None, ex_error = None,
      ex_progress = None, ex_startTime = None, ex_endTime = None\<rparr>"

text \<open>
  \<^verbatim>\<open>Record<string, AgentExecution>\<close> as an association list: an assignment replaces
  the entry of its key or appends a new one. \<^verbatim>\<open>Object.values\<close> is the list of the
  second components.
\<close>

type_synonym Executions = "(string \<times> AgentExecution) list"

definition prevExecution :: "Executions \<Rightarrow> string \<Rightarrow> AgentExecution" where
  "prevExecution prev k = (case map_of prev k of None \<Rightarrow> emptyExecution | Some e \<Rightarrow> e)"

definition statusOf :: "Executions \<Rightarrow> string \<Rightarrow> Status option" where
  "statusOf execs k = (case map_of execs k of None \<Rightarrow> None | Some e \<Rightarrow> ex_status e)"

text \<open>The gate of step four: the value the effect passes to \<^verbatim>\<open>setCanProceed\<close>.\<close>

definition canProceedStepFour :: "Executions \<Rightarrow> bool" where
  "canProceedStepFour executions =
     (let executionList = map snd executions;
          completedCount = length (filter (\<lambda>e. ex_status e = Some completed) executionList)
      in length executionList > 0 \<and> completedCount = length executionList)"

definition getConnectorForTool :: "ToolConnector list \<Rightarrow> string \<Rightarrow> ToolConnector option" where
  "getConnectorForTool connectors toolType =
     (let mapped = mappedToolType toolType
      in find (\<lambda>c. Some (c4_connectorType c) = mapped \<and> c4_status c = ''active'') connectors)"

text \<open>
  What the agent endpoint sends back. \<open>Rejected\<close> is a raise out of
  \<^verbatim>\<open>mutateAsync\<close>: \<^verbatim>\<open>ErrorObject\<close> is a thrown \<^verbatim>\<open>Error\<close> with its message,
  \<^verbatim>\<open>OtherValue\<close> anything else thrown. \<open>Resolved\<close> carries the parsed body of a
  successful reply: \<open>None\<close> is the body \<^verbatim>\<open>null\<close>, \<open>Some response\<close> any other body,
  with the properties it has (a number, a string or a boolean has none of them).
\<close>

record AgentAnalysis =
  an_executiveSummary :: "string option"
  an_riskLevel :: "string option"
  an_complianceStatus :: "string option"

record AgentResponse =
  resp_analysis :: "AgentAnalysis option"
  resp_findings :: "Finding list option"
  resp_dataPoints :: "int option"

datatype Thrown = ErrorObject string | OtherValue

datatype AgentOutcome = Rejected Thrown | Resolved "AgentResponse option"

record ExecuteArgs =
  arg_questionId :: string
  arg_prompt :: string
  arg_toolType :: string
  arg_connectorId :: int

text \<open>
  \<^verbatim>\<open>executeAgentMutation\<close>: three guards, then the request, whose outcome is \<open>api\<close>.
  \<^verbatim>\<open>!applicationId\<close> holds for \<^verbatim>\<open>null\<close> and for 0.
\<close>

definition executeAgentMutation :: "int option \<Rightarrow> ExecuteArgs \<Rightarrow> AgentOutcome \<Rightarrow> AgentOutcome" where
  "executeAgentMutation applicationId args api =
     (if applicationId = None \<or> applicationId = Some 0
      then Rejected (ErrorObject ''Application ID is required'')
      else if arg_questionId args = [] then Rejected (ErrorObject ''Question ID is required'')
      else if arg_prompt args = [] then Rejected (ErrorObject ''Prompt is required'')
      else api)"

text \<open>
  What one execution meets from outside: the outcome of its request, the integer
  that \<^verbatim>\<open>Math.floor(Math.random() * 50)\<close> evaluates to (the floating-point draw and
  product are not computed here; the integer is taken as it comes) and the clock
  readings of \<^verbatim>\<open>new Date()\<close>, as numbers of milliseconds.
\<close>

record AgentRun =
  run_api :: AgentOutcome
  run_draw :: int
  run_startTime :: nat
  run_endTime :: nat
  run_timestamp :: nat

text \<open>
  The \<^verbatim>\<open>result\<close> object written for a resolved request (the object literal inside
  \<^verbatim>\<open>executeAllAgents\<close>). Its first property reads \<^verbatim>\<open>response.analysis\<close>, which
  raises a \<^verbatim>\<open>TypeError\<close> when the body is \<^verbatim>\<open>null\<close>. \<open>draw\<close> is the value of
  \<^verbatim>\<open>Math.floor(Math.random() * 50)\<close>.
\<close>

datatype RenderError = TypeError

definition normalizeResult ::
  "ToolConnector \<Rightarrow> StepFourAnalysis \<Rightarrow> AgentResponse option \<Rightarrow> int \<Rightarrow> nat
     \<Rightarrow> RenderError + ExecutionResult" where
  "normalizeResult connector analysis reply draw now =
     (case reply of
        None \<Rightarrow> Inl TypeError
      | Some response \<Rightarrow>
          Inr \<lparr>r_data =
                 or_str (case resp_analysis response of
                           None \<Rightarrow> None | Some a \<Rightarrow> an_executiveSummary a)
                   (''Comprehensive data analysis completed for: ''
                      @ (case s4_originalQuestion analysis of
                           None \<Rightarrow> ''undefined'' | Some s \<Rightarrow> s)),
               r_records =
                 (case resp_dataPoints response of
                    None \<Rightarrow> draw + 10
                  | Some n \<Rightarrow> if n = 0 then draw + 10 else n),
               r_source = c4_connectorName connector,
               r_timestamp = now,
               r_findings = (case resp_findings response of None \<Rightarrow> [] | Some fs \<Rightarrow> fs),
               r_riskLevel =
                 or_str (case resp_analysis response of None \<Rightarrow> None | Some a \<Rightarrow> an_riskLevel a)
                   ''Low'',
               r_complianceStatus =
                 or_str (case resp_analysis response of
                           None \<Rightarrow> None | Some a \<Rightarrow> an_complianceStatus a)
                   ''Compliant''\<rparr>)"

text \<open>
  The batch. The callbacks of \<^verbatim>\<open>analyses.map(async ...)\<close> run up to their first
  \<^verbatim>\<open>await\<close> one after the other, in list order: \<open>startAgent\<close> is that part. It
  writes \<^verbatim>\<open>no_connector\<close> and returns, or writes \<^verbatim>\<open>running\<close>, starts the progress
  timer and issues the request (recorded in \<open>bs_calls\<close>).
\<close>

record BatchState =
  bs_executions :: Executions
  bs_calls :: "ExecuteArgs list"
  bs_renderFailed :: bool

definition executeArgs :: "StepFourAnalysis \<Rightarrow> ToolConnector \<Rightarrow> ExecuteArgs" where
  "executeArgs analysis connector =
     \<lparr>arg_questionId = s4_id analysis,
      arg_prompt = or_str (or_else (s4_prompt analysis) (s4_originalQuestion analysis)) [],
      arg_toolType = s4_toolSuggestion analysis,
      arg_connectorId = c4_id connector\<rparr>"

definition startAgent ::
  "ToolConnector list \<Rightarrow> (StepFourAnalysis \<Rightarrow> AgentRun) \<Rightarrow> StepFourAnalysis \<Rightarrow> BatchState \<Rightarrow> BatchState" where
  "startAgent connectors env analysis bs =
     (let prev = bs_executions bs
      in case getConnectorForTool connectors (s4_toolSuggestion analysis) of
           None \<Rightarrow>
             bs\<lparr>bs_executions :=
                  AList.update (s4_id analysis)
                    ((prevExecution prev (s4_id analysis))
                       \<lparr>ex_status := Some no_connector,
                        ex_error := Some ''No connector configured for this tool type''\<rparr>)
                    prev\<rparr>
         | Some connector \<Rightarrow>
             bs\<lparr>bs_executions :=
                  AList.update (s4_id analysis)
                    ((prevExecution prev (s4_id analysis))
                       \<lparr>ex_status := Some running,
                        ex_startTime := Some (run_startTime (env analysis)),
                        ex_progress := Some 0\<rparr>)
                    prev,
                bs_calls := bs_calls bs @ [executeArgs analysis connector]\<rparr>)"

text \<open>
  What happens after the first \<^verbatim>\<open>await\<close>, in whatever order the timers fire and the
  requests come back, each in a task of its own: \<open>Tick analysis k\<close> is the \<open>k\<close>-th
  firing of the progress timer of an execution, \<open>Settle analysis\<close> the return of its
  request. Each passes an updater function to \<^verbatim>\<open>setExecutions\<close>.
\<close>

datatype Event = Tick StepFourAnalysis nat | Settle StepFourAnalysis

definition tickAgent :: "StepFourAnalysis \<Rightarrow> nat \<Rightarrow> Executions \<Rightarrow> Executions" where
  "tickAgent analysis k prev =
     AList.update (s4_id analysis)
       ((prevExecution prev (s4_id analysis))\<lparr>ex_progress := Some (min (15 * k) 85)\<rparr>) prev"

text \<open>
  The updater passed to \<^verbatim>\<open>setExecutions\<close> when the request of an analysis has come
  back. A raise of \<^verbatim>\<open>mutateAsync\<close> is caught by the \<^verbatim>\<open>catch\<close> block, whose updater
  writes \<^verbatim>\<open>failed\<close>. For a resolved request the updater writes \<^verbatim>\<open>completed\<close> and
  builds the result object; the updater itself raises when that object cannot be
  built.
\<close>

definition settleAgent ::
  "ToolConnector list \<Rightarrow> int option \<Rightarrow> (StepFourAnalysis \<Rightarrow> AgentRun) \<Rightarrow> StepFourAnalysis
     \<Rightarrow> Executions \<Rightarrow> RenderError + Executions" where
  "settleAgent connectors applicationId env analysis prev =
     (case getConnectorForTool connectors (s4_toolSuggestion analysis) of
        None \<Rightarrow> Inr prev
      | Some connector \<Rightarrow>
          (case executeAgentMutation applicationId (executeArgs analysis connector)
                  (run_api (env analysis)) of
             Resolved reply \<Rightarrow>
               (case normalizeResult connector analysis reply
                       (run_draw (env analysis)) (run_timestamp (env analysis)) of
                  Inl e \<Rightarrow> Inl e
                | Inr result \<Rightarrow>
                    Inr (AList.update (s4_id analysis)
                           ((prevExecution prev (s4_id analysis))
                              \<lparr>ex_status := Some completed,
                               ex_progress := Some 100,
                               ex_endTime := Some (run_endTime (env analysis)),
                               ex_result := Some result\<rparr>)
                           prev))
           | Rejected thrown \<Rightarrow>
               Inr (AList.update (s4_id analysis)
                      ((prevExecution prev (s4_id analysis))
                         \<lparr>ex_status := Some failed,
                          ex_error :=
                            Some (case thrown of ErrorObject message \<Rightarrow> message
                                               | OtherValue \<Rightarrow> ''Execution failed''),
                          ex_endTime := Some (run_endTime (env analysis))\<rparr>)
                      prev)))"

text \<open>
  React runs an updater when it next renders the component, not inside the call of
  \<^verbatim>\<open>setExecutions\<close>, so a raise of the updater is outside the \<^verbatim>\<open>try\<close> block of
  \<^verbatim>\<open>executeAllAgents\<close>: the render fails, the state keeps the value it had, and the
  failed component takes no later update.
\<close>

definition applyEvent ::
  "ToolConnector list \<Rightarrow> int option \<Rightarrow> (StepFourAnalysis \<Rightarrow> AgentRun) \<Rightarrow> Event
     \<Rightarrow> BatchState \<Rightarrow> BatchState" where
  "applyEvent connectors applicationId env ev bs =
     (if bs_renderFailed bs then bs
      else case ev of
             Tick analysis k \<Rightarrow>
               bs\<lparr>bs_executions := tickAgent analysis k (bs_executions bs)\<rparr>
           | Settle analysis \<Rightarrow>
               (case settleAgent connectors applicationId env analysis (bs_executions bs) of
                  Inl e \<Rightarrow> bs\<lparr>bs_renderFailed := True\<rparr>
                | Inr executions \<Rightarrow> bs\<lparr>bs_executions := executions\<rparr>))"

definition executeAllAgents ::
  "ToolConnector list \<Rightarrow> int option \<Rightarrow> (StepFourAnalysis \<Rightarrow> AgentRun) \<Rightarrow> StepFourAnalysis list
     \<Rightarrow> Event list \<Rightarrow> Executions \<Rightarrow> BatchState" where
  "executeAllAgents connectors applicationId env analyses events executions =
     fold (applyEvent connectors applicationId env) events
       (fold (startAgent connectors env) analyses
          \<lparr>bs_executions = executions, bs_calls = [], bs_renderFailed = False\<rparr>)"

text \<open>The analyses whose request comes back, in the order of the \<open>Settle\<close> events.\<close>

fun settled :: "Event list \<Rightarrow> StepFourAnalysis list" where
  "settled [] = []"
| "settled (Settle analysis # evs) = analysis # settled evs"
| "settled (Tick analysis k # evs) = settled evs"

text \<open>
  The status the updater writes once the request of an analysis has come back, when
  the updater does not raise.
\<close>

definition settledStatus :: "int option \<Rightarrow> (StepFourAnalysis \<Rightarrow> AgentRun) \<Rightarrow> ToolConnector
     \<Rightarrow> StepFourAnalysis \<Rightarrow> Status" where
  "settledStatus applicationId env connector analysis =
     (case executeAgentMutation applicationId (executeArgs analysis connector)
             (run_api (env analysis)) of
        Resolved reply \<Rightarrow> completed
      | Rejected thrown \<Rightarrow> failed)"

text \<open>The request of an analysis comes back with the body \<^verbatim>\<open>null\<close>.\<close>

definition nullReply :: "int option \<Rightarrow> (StepFourAnalysis \<Rightarrow> AgentRun) \<Rightarrow> ToolConnector
     \<Rightarrow> StepFourAnalysis \<Rightarrow> bool" where
  "nullReply applicationId env connector analysis =
     (executeAgentMutation applicationId (executeArgs analysis connector)
        (run_api (env analysis)) = Resolved None)"


section \<open>Example inputs\<close>

definition emailQuestion :: Question where
  "emailQuestion =
     \<lparr>q_id = Some ''Q1'', q_questionNumber = Some ''1'', q_process = Some ''Retention'',
      q_subProcess = None, q_question = Some ''Is the email archive reviewed?'', q_text = None\<rparr>"

definition emailBody :: AnalyzeBody where
  "emailBody = \<lparr>body_applicationId = Some 1, body_questions = Some [emailQuestion]\<rparr>"

definition freshDb :: Database where
  "freshDb = \<lparr>db_applications = [1], db_questionAnalyses = []\<rparr>"

definition ticketQuestion :: Question where
  "ticketQuestion =
     \<lparr>q_id = Some ''Q2'', q_questionNumber = Some ''2'', q_process = Some ''Incidents'',
      q_subProcess = Some ''Closure'', q_question = Some ''Are tickets closed in time?'',
      q_text = None\<rparr>"

definition jiraAnalysis :: QuestionAnalysis where
  "jiraAnalysis =
     \<lparr>s3_questionId = ''Q1'', s3_originalQuestion = ''Are defects tracked to closure?'',
      s3_category = ''Change'', s3_subcategory = ''Defects'', s3_aiPrompt = ''List open defects'',
      s3_toolSuggestion = Single ''jira'', s3_connectorReason = ''Defects live in Jira'',
      s3_connectorToUse = Single ''jira''\<rparr>"

definition failedJiraConnector :: ToolConnector3 where
  "failedJiraConnector =
     \<lparr>c3_id = 7, c3_connector_type = ''Jira'', c3_ciId = ''CI-1'', c3_configuration = ''{}'',
      c3_status = ''failed''\<rparr>"

definition editState :: StepThreeState where
  "editState =
     \<lparr>st_analyses = [jiraAnalysis\<lparr>s3_connectorToUse := Single []\<rparr>], st_isSaved = True,
      st_hasUnsavedChanges = False\<rparr>"

definition sqlConnector :: ToolConnector where
  "sqlConnector =
     \<lparr>c4_id = 3, c4_connectorName = ''Finance SQL'', c4_connectorType = ''SQL Server DB'',
      c4_ciId = ''CI-1'', c4_configuration = ''{}'', c4_status = ''active''\<rparr>"

definition sqlAnalysis :: StepFourAnalysis where
  "sqlAnalysis =
     \<lparr>s4_id = ''Q1'', s4_originalQuestion = Some ''Who can alter the ledger tables?'',
      s4_category = ''Access'', s4_subcategory = ''Database'',
      s4_prompt = Some ''List accounts with write access'', s4_toolSuggestion = ''sql_server'',
      s4_connectorReason = ''Ledger is in SQL Server'', s4_connectorToUse = ''sql_server''\<rparr>"

definition oracleAnalysis :: StepFourAnalysis where
  "oracleAnalysis =
     sqlAnalysis\<lparr>s4_id := ''Q2'', s4_toolSuggestion := ''Oracle DB'', s4_connectorToUse := ''Oracle DB''\<rparr>"

definition failingAnalysis :: StepFourAnalysis where
  "failingAnalysis =
     sqlAnalysis\<lparr>s4_id := ''Q3'', s4_toolSuggestion := ''SQL Server DB'',
                 s4_connectorToUse := ''SQL Server DB''\<rparr>"

definition bareResponse :: AgentResponse where
  "bareResponse = \<lparr>resp_analysis = None, resp_findings = None, resp_dataPoints = None\<rparr>"

definition batchEnv :: "StepFourAnalysis \<Rightarrow> AgentRun" where
  "batchEnv a =
     \<lparr>run_api = (if s4_id a = ''Q3'' then Rejected (ErrorObject ''timeout'')
                 else Resolved (Some bareResponse)),
      run_draw = 25, run_startTime = 100, run_endTime = 200, run_timestamp = 200\<rparr>"

definition nullEnv :: "StepFourAnalysis \<Rightarrow> AgentRun" where
  "nullEnv a =
     \<lparr>run_api = (if s4_id a = ''Q3'' then Rejected (ErrorObject ''timeout'') else Resolved None),
      run_draw = 25, run_startTime = 100, run_endTime = 200, run_timestamp = 200\<rparr>"

definition nullEvents :: "Event list" where
  "nullEvents = [Settle sqlAnalysis, Settle failingAnalysis]"

definition failedJiraConnector4 :: ToolConnector where
  "failedJiraConnector4 =
     \<lparr>c4_id = 7, c4_connectorName = ''Jira'', c4_connectorType = ''Jira'', c4_ciId = ''CI-1'',
      c4_configuration = ''{}'', c4_status = ''failed''\<rparr>"

definition batchEvents :: "Event list" where
  "batchEvents = [Settle failingAnalysis, Tick sqlAnalysis 1, Settle sqlAnalysis]"

definition executionWith :: "Status \<Rightarrow> AgentExecution" where
  "executionWith s = emptyExecution\<lparr>ex_status := Some s\<rparr>"

section \<open>Facts about strings\<close>

lemma includes_iff: "includes_str s sub \<longleftrightarrow> (\<exists>p r. s = p @ sub @ r)"
proof (induction s)
  case Nil
  then show ?case by auto
next
  case (Cons c cs)
  show ?case
  proof
    assume "includes_str (c # cs) sub"
    then consider "prefix sub (c # cs)" | "includes_str cs sub" by auto
    then show "\<exists>p r. c # cs = p @ sub @ r"
    proof cases
      case 1
      then obtain r where "c # cs = sub @ r" by (auto simp: prefix_def)
      then have "c # cs = [] @ sub @ r" by simp
      then show ?thesis by blast
    next
      case 2
      with Cons.IH obtain p r where "cs = p @ sub @ r" by blast
      then have "c # cs = (c # p) @ sub @ r" by simp
      then show ?thesis by blast
    qed
  next
    assume "\<exists>p r. c # cs = p @ sub @ r"
    then obtain p r where eq: "c # cs = p @ sub @ r" by blast
    show "includes_str (c # cs) sub"
    proof (cases p)
      case Nil
      with eq have "prefix sub (c # cs)" by (simp add: prefix_def)
      then show ?thesis by simp
    next
      case (Cons a p')
      with eq have "cs = p' @ sub @ r" by simp
      with Cons.IH have "includes_str cs sub" by blast
      then show ?thesis by simp
    qed
  qed
qed

lemma includes_toLowerCase:
  assumes "includes_str s sub" and "toLowerCase sub = sub"
  shows "includes_str (toLowerCase s) sub"
proof -
  from assms(1) obtain p r where "s = p @ sub @ r" by (auto simp: includes_iff)
  then have "toLowerCase s = toLowerCase p @ sub @ toLowerCase r"
    using assms(2) by (simp add: toLowerCase_def)
  then show ?thesis unfolding includes_iff by blast
qed


section \<open>The classifier\<close>

lemma determineToolSuggestion_firstMatch:
  "determineToolSuggestion q = ruleSuggestions ! firstMatch documentedRules (questionText q)"
  by (simp add: determineToolSuggestion_def documentedRules_def ruleSuggestions_def Let_def)

lemma determineToolSuggestion_rule1:
  assumes "includes_str (questionText q) ''database'' \<or> includes_str (questionText q) ''sql''
           \<or> includes_str (questionText q) ''table''"
  shows "determineToolSuggestion q = ''SQL Server''"
  using assms by (simp add: determineToolSuggestion_def Let_def)

lemma determineToolSuggestion_range: "determineToolSuggestion q \<in> set ruleSuggestions"
  by (simp add: determineToolSuggestion_def ruleSuggestions_def Let_def)

lemma determineConnector_range: "determineConnector q \<in> set ruleConnectors"
  by (simp add: determineConnector_def ruleConnectors_def Let_def)

text \<open>
  Claim C1, as the source has it. For every question whose lower-cased text contains
  one of the substrings "database", "sql" or "table", \<open>determineToolSuggestion\<close>
  returns the string "SQL Server", whatever else the text contains, and
  \<open>determineConnector\<close> returns "sql_server".
\<close>

theorem determineToolSuggestion_sql_rule:
  assumes "includes_str (questionText q) ''database'' \<or> includes_str (questionText q) ''sql''
           \<or> includes_str (questionText q) ''table''"
  shows "determineToolSuggestion q = ''SQL Server'' \<and> determineConnector q = ''sql_server''"
  using determineToolSuggestion_rule1[OF assms] by (simp add: determineConnector_def)

theorem determineToolSuggestion_sql_rule_witness:
  "includes_str (questionText (plainQuestion ''Which SQL tables hold tickets?'')) ''sql''
   \<and> determineToolSuggestion (plainQuestion ''Which SQL tables hold tickets?'') = ''SQL Server''"
proof -
  have h: "includes_str (questionText (plainQuestion ''Which SQL tables hold tickets?'')) ''sql''"
    by code_simp
  then show ?thesis
    using determineToolSuggestion_sql_rule[of "plainQuestion ''Which SQL tables hold tickets?''"]
    by blast
qed

text \<open>
  Claim C1 as the specification words it fails: the text "sql" contains the substring
  "sql", and the classifier does not return "SQL Server DB" for it.
\<close>

theorem determineToolSuggestion_not_sql_server_db:
  "includes_str (questionText (plainQuestion ''sql'')) ''sql''
   \<and> determineToolSuggestion (plainQuestion ''sql'') \<noteq> ''SQL Server DB''"
  by code_simp

text \<open>
  Claim C7. The classifier returns the suggestion of the first rule, in the documented
  order, that has a keyword in the lower-cased text. In particular a question whose
  text contains both "ticket" and "database" gets the suggestion of rule 1, the same as
  any question containing "database", and not "ServiceNow". (A text that contains a
  lower-case keyword also contains it after lower-casing: \<open>includes_toLowerCase\<close>.)
\<close>

theorem determineToolSuggestion_priority:
  "determineToolSuggestion q = ruleSuggestions ! firstMatch documentedRules (questionText q)
   \<and> (includes_str (questionText q) ''ticket'' \<and> includes_str (questionText q) ''database''
        \<and> includes_str (questionText q') ''database''
      \<longrightarrow> determineToolSuggestion q = determineToolSuggestion q'
          \<and> determineToolSuggestion q = ruleSuggestions ! 0
          \<and> determineToolSuggestion q \<noteq> ''ServiceNow'')"
proof
  show "determineToolSuggestion q = ruleSuggestions ! firstMatch documentedRules (questionText q)"
    by (rule determineToolSuggestion_firstMatch)
next
  show "includes_str (questionText q) ''ticket'' \<and> includes_str (questionText q) ''database''
        \<and> includes_str (questionText q') ''database''
      \<longrightarrow> determineToolSuggestion q = determineToolSuggestion q'
          \<and> determineToolSuggestion q = ruleSuggestions ! 0
          \<and> determineToolSuggestion q \<noteq> ''ServiceNow''"
    using determineToolSuggestion_rule1[of q] determineToolSuggestion_rule1[of q']
    by (simp add: ruleSuggestions_def)
qed

theorem determineToolSuggestion_priority_witness:
  "includes_str (questionText (plainQuestion ''Ticket backlog of the DATABASE team'')) ''ticket''
   \<and> includes_str (questionText (plainQuestion ''Ticket backlog of the DATABASE team'')) ''database''
   \<and> includes_str (questionText (plainQuestion ''database'')) ''database''
   \<and> determineToolSuggestion (plainQuestion ''Ticket backlog of the DATABASE team'')
       = determineToolSuggestion (plainQuestion ''database'')
   \<and> determineToolSuggestion (plainQuestion ''Ticket backlog of the DATABASE team'') \<noteq> ''ServiceNow''"
proof -
  have h: "includes_str (questionText (plainQuestion ''Ticket backlog of the DATABASE team'')) ''ticket''
           \<and> includes_str (questionText (plainQuestion ''Ticket backlog of the DATABASE team'')) ''database''
           \<and> includes_str (questionText (plainQuestion ''database'')) ''database''"
    by code_simp
  then show ?thesis
    using determineToolSuggestion_priority[of "plainQuestion ''Ticket backlog of the DATABASE team''"
        "plainQuestion ''database''"]
    by blast
qed


section \<open>The analysis route and its storage: results\<close>

lemma insertRows_Inr: "insertRows rows tbl = Inr tbl' \<Longrightarrow> tbl' = tbl @ rows"
proof (induction rows arbitrary: tbl)
  case Nil
  then show ?case by simp
next
  case (Cons a rows)
  from Cons.prems have "insertRows rows (tbl @ [a]) = Inr tbl'"
    by (simp split: if_splits)
  from Cons.IH[OF this] show ?case by simp
qed

lemma insertRows_fresh:
  assumes "\<forall>a\<in>set rows. ia_applicationId a \<noteq> None \<and> ia_questionId a \<noteq> None
                          \<and> ia_originalQuestion a \<noteq> None"
      and "distinct (map (\<lambda>a. (ia_applicationId a, ia_questionId a)) rows)"
      and "\<forall>r\<in>set tbl. \<forall>a\<in>set rows. \<not> sameKey r a"
  shows "insertRows rows tbl = Inr (tbl @ rows)"
  using assms
proof (induction rows arbitrary: tbl)
  case Nil
  then show ?case by simp
next
  case (Cons a rows)
  have fresh: "\<not> list_ex (\<lambda>r. sameKey r a) tbl"
    using Cons.prems(3) by (auto simp: list_ex_iff)
  have "\<forall>r\<in>set (tbl @ [a]). \<forall>b\<in>set rows. \<not> sameKey r b"
  proof (intro ballI)
    fix r b assume r: "r \<in> set (tbl @ [a])" and b: "b \<in> set rows"
    show "\<not> sameKey r b"
    proof (cases "r = a")
      case True
      from Cons.prems(2) b
      have "(ia_applicationId a, ia_questionId a) \<noteq> (ia_applicationId b, ia_questionId b)"
        by auto
      with True show ?thesis by (auto simp: sameKey_def)
    next
      case False
      with r have "r \<in> set tbl" by simp
      with Cons.prems(3) b show ?thesis by simp
    qed
  qed
  with Cons.IH[of "tbl @ [a]"] Cons.prems
  have "insertRows rows (tbl @ [a]) = Inr ((tbl @ [a]) @ rows)"
    by simp
  with fresh Cons.prems(1) show ?case by simp
qed

text \<open>
  When the first insert goes through: a non-empty batch with the mandatory columns
  filled, distinct keys that the table does not hold yet, and existing applications.
\<close>

lemma createQuestionAnalyses_fresh:
  assumes "analyses \<noteq> []"
      and "\<forall>a\<in>set analyses. ia_applicationId a \<noteq> None \<and> ia_questionId a \<noteq> None
                              \<and> ia_originalQuestion a \<noteq> None"
      and "distinct (map (\<lambda>a. (ia_applicationId a, ia_questionId a)) analyses)"
      and "\<forall>r\<in>set (db_questionAnalyses db). \<forall>a\<in>set analyses. \<not> sameKey r a"
      and "\<forall>a\<in>set analyses. referencesApplication (db_applications db) a"
  shows "createQuestionAnalyses analyses db
           = Inr (db\<lparr>db_questionAnalyses := db_questionAnalyses db @ analyses\<rparr>)"
  using assms insertRows_fresh[of analyses "db_questionAnalyses db"]
  by (simp add: createQuestionAnalyses_def list_all_iff)

lemma insertRows_filled:
  "insertRows rows tbl = Inr tbl' \<Longrightarrow>
   \<forall>a\<in>set rows. ia_questionId a \<noteq> None \<and> ia_originalQuestion a \<noteq> None"
proof (induction rows arbitrary: tbl)
  case Nil
  then show ?case by simp
next
  case (Cons a rows)
  from Cons.prems have filled: "ia_questionId a \<noteq> None \<and> ia_originalQuestion a \<noteq> None"
    and rest: "insertRows rows (tbl @ [a]) = Inr tbl'"
    by (auto split: if_splits)
  from Cons.IH[OF rest] filled show ?case by simp
qed

lemma insertRows_no_conflict:
  "insertRows rows tbl = Inr tbl' \<Longrightarrow> \<forall>r\<in>set tbl. \<forall>a\<in>set rows. \<not> sameKey r a"
proof (induction rows arbitrary: tbl)
  case Nil
  then show ?case by simp
next
  case (Cons a rows)
  from Cons.prems have free: "\<not> list_ex (\<lambda>r. sameKey r a) tbl"
    and rest: "insertRows rows (tbl @ [a]) = Inr tbl'"
    by (auto split: if_splits)
  from Cons.IH[OF rest] free show ?case by (auto simp: list_ex_iff)
qed

lemma sameKey_sym: "ia_applicationId a \<noteq> None \<Longrightarrow> sameKey r a \<Longrightarrow> sameKey a r"
  by (auto simp: sameKey_def)

lemma insertRows_one_row:
  assumes "insertRows rows tbl = Inr tbl'" and "a \<in> set rows" and "ia_applicationId a \<noteq> None"
  shows "length (filter (\<lambda>r. sameKey r a) tbl') = 1"
  using assms(1,2)
proof (induction rows arbitrary: tbl)
  case Nil
  then show ?case by simp
next
  case (Cons b rows)
  from Cons.prems(1) have free: "\<not> list_ex (\<lambda>r. sameKey r b) tbl"
    and rest: "insertRows rows (tbl @ [b]) = Inr tbl'"
    by (auto split: if_splits)
  show ?case
  proof (cases "a \<in> set rows")
    case True
    from Cons.IH[OF rest True] show ?thesis .
  next
    case False
    with Cons.prems(2) have ab: "a = b" by simp
    have tbl': "tbl' = tbl @ [a] @ rows" using insertRows_Inr[OF rest] ab by simp
    have "filter (\<lambda>r. sameKey r a) tbl = []"
      using free ab by (auto simp: list_ex_iff filter_empty_conv)
    moreover have "filter (\<lambda>r. sameKey r a) rows = []"
    proof -
      have "\<not> sameKey r a" if "r \<in> set rows" for r
      proof
        assume "sameKey r a"
        then have "sameKey a r" using assms(3) by (auto simp: sameKey_def)
        moreover from insertRows_no_conflict[OF rest] that ab have "\<not> sameKey a r" by simp
        ultimately show False by simp
      qed
      then show ?thesis by (auto simp: filter_empty_conv)
    qed
    moreover have "sameKey a a" using assms(3) by (simp add: sameKey_def)
    ultimately show ?thesis using tbl' by simp
  qed
qed

lemma insertRows_again:
  assumes "\<forall>b\<in>set rows. ia_questionId b \<noteq> None \<and> ia_originalQuestion b \<noteq> None"
      and "\<exists>a\<in>set rows. \<exists>r\<in>set tbl. sameKey r a"
  shows "insertRows rows tbl = Inl UniqueViolation"
  using assms
proof (induction rows arbitrary: tbl)
  case Nil
  then show ?case by simp
next
  case (Cons b rows)
  show ?case
  proof (cases "list_ex (\<lambda>r. sameKey r b) tbl")
    case True
    with Cons.prems(1) show ?thesis by simp
  next
    case False
    with Cons.prems(2) have "\<exists>a\<in>set rows. \<exists>r\<in>set (tbl @ [b]). sameKey r a"
      by (auto simp: list_ex_iff)
    with Cons.IH[of "tbl @ [b]"] Cons.prems(1) have "insertRows rows (tbl @ [b]) = Inl UniqueViolation"
      by simp
    with False Cons.prems(1) show ?thesis by simp
  qed
qed

lemma insertRows_null_keys:
  assumes "\<forall>b\<in>set rows. ia_questionId b \<noteq> None \<and> ia_originalQuestion b \<noteq> None"
      and "\<forall>a\<in>set rows. ia_applicationId a = None"
  shows "insertRows rows tbl = Inr (tbl @ rows)"
  using assms
proof (induction rows arbitrary: tbl)
  case Nil
  then show ?case by simp
next
  case (Cons b rows)
  have "\<not> list_ex (\<lambda>r. sameKey r b) tbl"
    using Cons.prems(2) by (auto simp: list_ex_iff sameKey_def)
  with Cons.IH[of "tbl @ [b]"] Cons.prems show ?case by simp
qed

text \<open>
  Claim C3, as the source has it. Persisting question analyses is one plain insert
  under the unique index on (application id, question id), not an upsert. A run of
  \<open>createQuestionAnalyses\<close> that succeeds appends its analyses to the table, and
  the table then holds exactly one row for the key of every analysis that carries an
  application id. Running the same batch again on the database the first run left
  fails with a duplicate-key error, and so adds nothing, whenever an analysis of the
  batch carries an application id.
\<close>

theorem createQuestionAnalyses_insert_or_fail:
  assumes "createQuestionAnalyses analyses db = Inr db'"
  shows "db' = db\<lparr>db_questionAnalyses := db_questionAnalyses db @ analyses\<rparr>
       \<and> (\<forall>a\<in>set analyses. ia_applicationId a \<noteq> None
            \<longrightarrow> length (filter (\<lambda>r. sameKey r a) (db_questionAnalyses db')) = 1)
       \<and> ((\<exists>a\<in>set analyses. ia_applicationId a \<noteq> None)
            \<longrightarrow> createQuestionAnalyses analyses db' = Inl UniqueViolation)"
proof -
  from assms have ne: "analyses \<noteq> []"
    and ins: "insertRows analyses (db_questionAnalyses db)
                = Inr (db_questionAnalyses db')"
    and db': "db' = db\<lparr>db_questionAnalyses := db_questionAnalyses db'\<rparr>"
    and refs: "list_all (referencesApplication (db_applications db)) analyses"
    by (auto simp: createQuestionAnalyses_def split: if_splits sum.splits)
  have tbl: "db_questionAnalyses db' = db_questionAnalyses db @ analyses"
    by (rule insertRows_Inr[OF ins])
  have eq: "db' = db\<lparr>db_questionAnalyses := db_questionAnalyses db @ analyses\<rparr>"
    using db' tbl by simp
  have filled: "\<forall>a\<in>set analyses. ia_questionId a \<noteq> None \<and> ia_originalQuestion a \<noteq> None"
    by (rule insertRows_filled[OF ins])
  have one: "\<forall>a\<in>set analyses. ia_applicationId a \<noteq> None
            \<longrightarrow> length (filter (\<lambda>r. sameKey r a) (db_questionAnalyses db')) = 1"
    using insertRows_one_row[OF ins] by blast
  have again: "createQuestionAnalyses analyses db' = Inl UniqueViolation"
    if "\<exists>a\<in>set analyses. ia_applicationId a \<noteq> None"
  proof -
    from that obtain a where a: "a \<in> set analyses" "ia_applicationId a \<noteq> None" by blast
    then have "sameKey a a" by (simp add: sameKey_def)
    with a tbl have "\<exists>a\<in>set analyses. \<exists>r\<in>set (db_questionAnalyses db'). sameKey r a"
      by auto
    from insertRows_again[OF filled this] ne show ?thesis
      by (simp add: createQuestionAnalyses_def)
  qed
  from eq one again show ?thesis by blast
qed

theorem createQuestionAnalyses_insert_or_fail_witness:
  "createQuestionAnalyses [buildAnalysis (Some 1) emailQuestion] freshDb
     = Inr (freshDb\<lparr>db_questionAnalyses := [buildAnalysis (Some 1) emailQuestion]\<rparr>)
   \<and> length (filter (\<lambda>r. sameKey r (buildAnalysis (Some 1) emailQuestion))
        (db_questionAnalyses (freshDb\<lparr>db_questionAnalyses := [buildAnalysis (Some 1) emailQuestion]\<rparr>))) = 1
   \<and> createQuestionAnalyses [buildAnalysis (Some 1) emailQuestion]
       (freshDb\<lparr>db_questionAnalyses := [buildAnalysis (Some 1) emailQuestion]\<rparr>)
     = Inl UniqueViolation"
proof -
  have run: "createQuestionAnalyses [buildAnalysis (Some 1) emailQuestion] freshDb
     = Inr (freshDb\<lparr>db_questionAnalyses := [buildAnalysis (Some 1) emailQuestion]\<rparr>)"
    by code_simp
  have app: "ia_applicationId (buildAnalysis (Some 1) emailQuestion) \<noteq> None"
    by (simp add: buildAnalysis_def)
  from createQuestionAnalyses_insert_or_fail[OF run]
  have one: "\<forall>a\<in>set [buildAnalysis (Some 1) emailQuestion]. ia_applicationId a \<noteq> None
            \<longrightarrow> length (filter (\<lambda>r. sameKey r a)
                  (db_questionAnalyses
                     (freshDb\<lparr>db_questionAnalyses := [buildAnalysis (Some 1) emailQuestion]\<rparr>))) = 1"
    and again: "(\<exists>a\<in>set [buildAnalysis (Some 1) emailQuestion]. ia_applicationId a \<noteq> None)
            \<longrightarrow> createQuestionAnalyses [buildAnalysis (Some 1) emailQuestion]
                  (freshDb\<lparr>db_questionAnalyses := [buildAnalysis (Some 1) emailQuestion]\<rparr>)
                = Inl UniqueViolation"
    by blast+
  from one app
  have "length (filter (\<lambda>r. sameKey r (buildAnalysis (Some 1) emailQuestion))
        (db_questionAnalyses
           (freshDb\<lparr>db_questionAnalyses := [buildAnalysis (Some 1) emailQuestion]\<rparr>))) = 1"
    by simp
  moreover from again app
  have "createQuestionAnalyses [buildAnalysis (Some 1) emailQuestion]
          (freshDb\<lparr>db_questionAnalyses := [buildAnalysis (Some 1) emailQuestion]\<rparr>)
        = Inl UniqueViolation"
    by simp
  ultimately show ?thesis using run by blast
qed

text \<open>
  The unique index does not cover rows without an application id: a batch made only of
  such rows goes through a second time.
\<close>

lemma createQuestionAnalyses_null_application:
  assumes "createQuestionAnalyses analyses db = Inr db'"
      and nulls: "\<forall>a\<in>set analyses. ia_applicationId a = None"
  shows "createQuestionAnalyses analyses db'
           = Inr (db'\<lparr>db_questionAnalyses := db_questionAnalyses db' @ analyses\<rparr>)"
proof -
  from assms(1) have ne: "analyses \<noteq> []"
    and ins: "insertRows analyses (db_questionAnalyses db) = Inr (db_questionAnalyses db')"
    by (auto simp: createQuestionAnalyses_def split: if_splits sum.splits)
  have filled: "\<forall>a\<in>set analyses. ia_questionId a \<noteq> None \<and> ia_originalQuestion a \<noteq> None"
    by (rule insertRows_filled[OF ins])
  have "list_all (referencesApplication (db_applications db')) analyses"
    using nulls by (simp add: list_all_iff referencesApplication_def)
  with insertRows_null_keys[OF filled nulls, of "db_questionAnalyses db'"] ne show ?thesis
    by (simp add: createQuestionAnalyses_def)
qed

text \<open>
  Claim C3 as the specification words it fails: the first run of the route stores the
  row; the second run on the same body, against the database the first run left, does
  not update the row: the insert fails on the duplicate key and the route answers
  with status 500.
\<close>

theorem analyzeRoute_rerun_fails:
  "db_questionAnalyses (snd (analyzeRoute emailBody freshDb))
     = [buildAnalysis (Some 1) emailQuestion]
   \<and> createQuestionAnalyses [buildAnalysis (Some 1) emailQuestion]
       (snd (analyzeRoute emailBody freshDb)) = Inl UniqueViolation
   \<and> fst (analyzeRoute emailBody (snd (analyzeRoute emailBody freshDb)))
       = Status500 ''Failed to analyze questions''"
  by code_simp

text \<open>
  Claim C6, as the source has it. When the analysis route answers with the saved
  rows, it has built one row per question of the request, in order, and appended
  these rows unchanged to the table; the tool suggestion and the connector of each
  row are what \<open>determineToolSuggestion\<close> and \<open>determineConnector\<close> return for its
  question. So every stored tool suggestion is one of "SQL Server", "Outlook",
  "ServiceNow", "NAS Path", "Gnosis Path", "Manual Review" and every stored connector
  one of "sql_server", "outlook", "servicenow", "nas_path", "gnosis_path", "manual":
  nothing is checked against, or mapped to, the tool-type vocabulary of the wizard.
\<close>

theorem analyzeRoute_stores_classifier_values:
  assumes "body_questions body = Some questions"
      and "analyzeRoute body db = (Json saved, db')"
  shows "saved = map (buildAnalysis (body_applicationId body)) questions
       \<and> db' = db\<lparr>db_questionAnalyses := db_questionAnalyses db @ saved\<rparr>
       \<and> map ia_toolSuggestion saved = map determineToolSuggestion questions
       \<and> map ia_connectorToUse saved = map determineConnector questions
       \<and> (\<forall>r\<in>set saved. ia_toolSuggestion r \<in> set ruleSuggestions
                          \<and> ia_connectorToUse r \<in> set ruleConnectors)"
proof -
  let ?rows = "map (buildAnalysis (body_applicationId body)) questions"
  from assms have ok: "createQuestionAnalyses ?rows db = Inr db'" and saved: "saved = ?rows"
    by (auto simp: analyzeRoute_def Let_def split: sum.splits)
  from ok have ins: "insertRows ?rows (db_questionAnalyses db) = Inr (db_questionAnalyses db')"
    and db': "db' = db\<lparr>db_questionAnalyses := db_questionAnalyses db'\<rparr>"
    by (auto simp: createQuestionAnalyses_def split: if_splits sum.splits)
  from insertRows_Inr[OF ins] db' have "db' = db\<lparr>db_questionAnalyses := db_questionAnalyses db @ ?rows\<rparr>"
    by simp
  moreover have "map ia_toolSuggestion ?rows = map determineToolSuggestion questions"
    and "map ia_connectorToUse ?rows = map determineConnector questions"
    by (simp_all add: buildAnalysis_def)
  moreover have "\<forall>r\<in>set ?rows. ia_toolSuggestion r \<in> set ruleSuggestions
                                \<and> ia_connectorToUse r \<in> set ruleConnectors"
    using determineToolSuggestion_range determineConnector_range by (auto simp: buildAnalysis_def)
  ultimately show ?thesis using saved by simp
qed

theorem analyzeRoute_stores_classifier_values_witness:
  "analyzeRoute emailBody freshDb
     = (Json [buildAnalysis (Some 1) emailQuestion],
        freshDb\<lparr>db_questionAnalyses := db_questionAnalyses freshDb @ [buildAnalysis (Some 1) emailQuestion]\<rparr>)
   \<and> map ia_toolSuggestion [buildAnalysis (Some 1) emailQuestion]
       = map determineToolSuggestion [emailQuestion]
   \<and> map ia_connectorToUse [buildAnalysis (Some 1) emailQuestion]
       = map determineConnector [emailQuestion]
   \<and> determineToolSuggestion emailQuestion = ''Outlook''
   \<and> determineConnector emailQuestion = ''outlook''"
proof -
  have qs: "body_questions emailBody = Some [emailQuestion]"
    by (simp add: emailBody_def)
  have run: "analyzeRoute emailBody freshDb
     = (Json [buildAnalysis (Some 1) emailQuestion],
        freshDb\<lparr>db_questionAnalyses := db_questionAnalyses freshDb @ [buildAnalysis (Some 1) emailQuestion]\<rparr>)"
    by code_simp
  have cls: "determineToolSuggestion emailQuestion = ''Outlook''"
    "determineConnector emailQuestion = ''outlook''"
    by code_simp+
  from analyzeRoute_stores_classifier_values[OF qs run]
  have "map ia_toolSuggestion [buildAnalysis (Some 1) emailQuestion]
          = map determineToolSuggestion [emailQuestion]"
    and "map ia_connectorToUse [buildAnalysis (Some 1) emailQuestion]
          = map determineConnector [emailQuestion]"
    by blast+
  with run cls show ?thesis by blast
qed

text \<open>
  Claim C6 as the specification words it fails: for a question about an email archive
  the route stores the tool suggestion "Outlook" and the connector "outlook", and
  neither belongs to the vocabulary.
\<close>

theorem analyzeRoute_outside_vocabulary:
  "map ia_toolSuggestion (db_questionAnalyses (snd (analyzeRoute emailBody freshDb)))
     = [''Outlook'']
   \<and> ''Outlook'' \<notin> set toolVocabulary
   \<and> map ia_connectorToUse (db_questionAnalyses (snd (analyzeRoute emailBody freshDb)))
     = [''outlook'']
   \<and> ''outlook'' \<notin> set toolVocabulary"
  by code_simp


section \<open>Step three: results\<close>

lemma trim_Nil: "trim [] = []"
  by (simp add: trim_def)

lemma mapIndexed_length: "length (mapIndexed f xs) = length xs"
  by (simp add: mapIndexed_def)

lemma mapIndexed_nth: "i < length xs \<Longrightarrow> mapIndexed f xs ! i = f i (xs ! i)"
  by (simp add: mapIndexed_def nth_enumerate_eq)

lemma toolConfigured_iff:
  "toolConfigured connectors tool \<longleftrightarrow>
     (\<exists>c\<in>set connectors. Some (c3_connector_type c) = mappedToolType tool) \<and> trim tool \<noteq> []"
  using trim_Nil by (auto simp: toolConfigured_def Let_def list_ex_iff)

text \<open>
  The gate of step three, spelled out: it is true exactly when there is at least one
  analysis, every tool of every analysis (one tool or a list) is a non-blank string
  for which the registry holds a connector of the legacy-mapped type, and the batch is
  saved. The status of the connector is not read. Each edit handler clears the saved
  flag, so the gate is false after an edit until the next save.
\<close>

lemma canProceedStepThree_iff:
  "(canProceedStepThree analyses connectors isSaved \<longleftrightarrow>
      analyses \<noteq> []
      \<and> (\<forall>analysis\<in>set analyses. \<forall>tool\<in>set (toolSuggestions (s3_toolSuggestion analysis)).
            (\<exists>c\<in>set connectors. Some (c3_connector_type c) = mappedToolType tool)
            \<and> trim tool \<noteq> [])
      \<and> isSaved)
   \<and> \<not> canProceedStepThree (st_analyses (handleToolChange questionId newTool index st)) connectors
          (st_isSaved (handleToolChange questionId newTool index st))
   \<and> \<not> canProceedStepThree (st_analyses (handleConnectorChange questionId connectorName index st))
          connectors (st_isSaved (handleConnectorChange questionId connectorName index st))"
  by (auto simp: canProceedStepThree_def Let_def list_all_iff toolConfigured_iff
        handleToolChange_def handleConnectorChange_def)

text \<open>
  Claim C2 says that the gate requires an active connector for every tool. The source
  misses the status test: with one saved analysis that asks for Jira and a registry
  whose only Jira connector has the status "failed", the gate of step three is true,
  while the connector lookup of step four, on the same registry entry, finds no
  connector for the same tool.
\<close>

theorem canProceedStepThree_failed_connector:
  "canProceedStepThree [jiraAnalysis] [failedJiraConnector] True
   \<and> map c3_status [failedJiraConnector] = [''failed'']
   \<and> toolSuggestions (s3_toolSuggestion jiraAnalysis) = [''jira'']
   \<and> map c4_connectorType [failedJiraConnector4] = map c3_connector_type [failedJiraConnector]
   \<and> map c4_status [failedJiraConnector4] = map c3_status [failedJiraConnector]
   \<and> getConnectorForTool [failedJiraConnector4] ''jira'' = None"
  by code_simp

text \<open>
  Claim C9. \<open>handleConnectorChange\<close> does not depend on its \<open>connectorName\<close> (nor on
  its \<open>questionId\<close>) argument. It keeps the number of analyses; the analysis at the
  given index gets its own tool suggestion (the tool, or the whole list of tools) as
  \<open>connectorToUse\<close>, and every other analysis stays as it was.
\<close>

theorem handleConnectorChange_ignores_connectorName:
  "handleConnectorChange questionId connectorName index st
     = handleConnectorChange questionId' connectorName' index st
   \<and> length (st_analyses (handleConnectorChange questionId connectorName index st))
       = length (st_analyses st)
   \<and> (\<forall>i < length (st_analyses st).
         st_analyses (handleConnectorChange questionId connectorName index st) ! i
           = (if i = index
              then (st_analyses st ! i)\<lparr>s3_connectorToUse := s3_toolSuggestion (st_analyses st ! i)\<rparr>
              else st_analyses st ! i))"
  by (auto simp: handleConnectorChange_def mapIndexed_length mapIndexed_nth
        split: ToolSelection.splits)

theorem handleConnectorChange_ignores_connectorName_witness:
  "s3_connectorToUse (st_analyses (handleConnectorChange ''Q1'' ''Production Jira'' 0 editState) ! 0)
     = Single ''jira''
   \<and> handleConnectorChange ''Q1'' ''Production Jira'' 0 editState
       = handleConnectorChange ''Q1'' ''Test Jira'' 0 editState"
proof -
  have len: "0 < length (st_analyses editState)"
    by (simp add: editState_def)
  from handleConnectorChange_ignores_connectorName[of "''Q1''" "''Production Jira''" 0 editState
      "''Q1''" "''Test Jira''"]
  have eq: "handleConnectorChange ''Q1'' ''Production Jira'' 0 editState
              = handleConnectorChange ''Q1'' ''Test Jira'' 0 editState"
    and nth: "\<forall>i < length (st_analyses editState).
         st_analyses (handleConnectorChange ''Q1'' ''Production Jira'' 0 editState) ! i
           = (if i = 0
              then (st_analyses editState ! i)
                     \<lparr>s3_connectorToUse := s3_toolSuggestion (st_analyses editState ! i)\<rparr>
              else st_analyses editState ! i)"
    by blast+
  from nth len
  have "st_analyses (handleConnectorChange ''Q1'' ''Production Jira'' 0 editState) ! 0
          = (st_analyses editState ! 0)
              \<lparr>s3_connectorToUse := s3_toolSuggestion (st_analyses editState ! 0)\<rparr>"
    by simp
  then have "s3_connectorToUse
               (st_analyses (handleConnectorChange ''Q1'' ''Production Jira'' 0 editState) ! 0)
             = Single ''jira''"
    by (simp add: editState_def jiraAnalysis_def)
  with eq show ?thesis by simp
qed

lemma analyzeStep_analyses:
  "loop_analyses (analyzeStep n call st) =
     loop_analyses st @
       (case call of
          (question, Throws) \<Rightarrow> [fallbackAnalysis question]
        | (question, Replies (Some (first # rest))) \<Rightarrow> [first]
        | (question, Replies _) \<Rightarrow> [])"
  by (simp add: analyzeStep_def split: prod.splits AnalyzeReply.splits option.splits list.splits)

lemma analyzeStep_processedCount:
  "loop_processedCount (analyzeStep n call st) = loop_processedCount st + 1"
  by (simp add: analyzeStep_def split: prod.splits AnalyzeReply.splits)

lemma analyzeStep_progressReports:
  "loop_progressReports (analyzeStep n call st) =
     loop_progressReports st @ [(loop_processedCount st + 1, n)]"
  by (simp add: analyzeStep_def split: prod.splits AnalyzeReply.splits)

lemma fold_analyzeStep_analyses:
  "loop_analyses (fold (analyzeStep n) calls st) =
     loop_analyses st @
       concat (map (\<lambda>call. case call of
          (question, Throws) \<Rightarrow> [fallbackAnalysis question]
        | (question, Replies (Some (first # rest))) \<Rightarrow> [first]
        | (question, Replies _) \<Rightarrow> []) calls)"
  by (induction calls arbitrary: st) (simp_all add: analyzeStep_analyses)

lemma fold_analyzeStep_processedCount:
  "loop_processedCount (fold (analyzeStep n) calls st) = loop_processedCount st + length calls"
  by (induction calls arbitrary: st) (simp_all add: analyzeStep_processedCount)

lemma fold_analyzeStep_progressReports:
  "loop_progressReports (fold (analyzeStep n) calls st) =
     loop_progressReports st
       @ map (\<lambda>k. (loop_processedCount st + k, n)) [1..<Suc (length calls)]"
proof (induction calls arbitrary: st)
  case Nil
  then show ?case by simp
next
  case (Cons call calls)
  have "map (\<lambda>k. (loop_processedCount st + k, n)) [1..<Suc (Suc (length calls))]
        = (loop_processedCount st + 1, n)
          # map (\<lambda>k. (loop_processedCount st + 1 + k, n)) [1..<Suc (length calls)]"
  proof -
    have "[1..<Suc (Suc (length calls))] = 1 # map Suc [1..<Suc (length calls)]"
      by (simp add: upt_conv_Cons map_Suc_upt del: upt_Suc)
    then show ?thesis by (simp add: o_def del: upt_Suc)
  qed
  with Cons.IH[of "analyzeStep n call st"] show ?case
    by (simp add: analyzeStep_progressReports analyzeStep_processedCount del: upt_Suc)
qed

text \<open>
  Claim C5, as the source has it. The analysis mutation always returns. Its result
  holds, in question order, the fixed fallback analysis for each question whose call
  raised (tool and connector "SQL Server DB", reason "Fallback due to analysis error",
  the id of the question) and, for each question whose call returned, the first
  analysis of the reply when the reply has one and nothing when it has none. Every
  question counts as processed: the count ends at the number of questions, and the
  progress reports are 1, 2, ... out of that number.
\<close>

theorem analyzeQuestions_recovers:
  "loop_analyses (analyzeQuestions calls) =
     concat (map (\<lambda>call. case call of
          (question, Throws) \<Rightarrow> [fallbackAnalysis question]
        | (question, Replies (Some (first # rest))) \<Rightarrow> [first]
        | (question, Replies _) \<Rightarrow> []) calls)
   \<and> mutationResult calls
       = (loop_analyses (analyzeQuestions calls), length (loop_analyses (analyzeQuestions calls)))
   \<and> loop_processedCount (analyzeQuestions calls) = length calls
   \<and> loop_progressReports (analyzeQuestions calls)
       = map (\<lambda>k. (k, length calls)) [1..<Suc (length calls)]
   \<and> s3_toolSuggestion (fallbackAnalysis question) = Single ''SQL Server DB''
   \<and> s3_connectorToUse (fallbackAnalysis question) = Single ''SQL Server DB''
   \<and> s3_connectorReason (fallbackAnalysis question) = ''Fallback due to analysis error''
   \<and> s3_questionId (fallbackAnalysis question) = or_str (q_id question) []"
proof (intro conjI)
  show "loop_analyses (analyzeQuestions calls) =
     concat (map (\<lambda>call. case call of
          (question, Throws) \<Rightarrow> [fallbackAnalysis question]
        | (question, Replies (Some (first # rest))) \<Rightarrow> [first]
        | (question, Replies _) \<Rightarrow> []) calls)"
    by (simp add: analyzeQuestions_def fold_analyzeStep_analyses)
  show "mutationResult calls
       = (loop_analyses (analyzeQuestions calls), length (loop_analyses (analyzeQuestions calls)))"
    by (simp add: mutationResult_def Let_def)
  show "loop_processedCount (analyzeQuestions calls) = length calls"
    by (simp add: analyzeQuestions_def fold_analyzeStep_processedCount)
  show "loop_progressReports (analyzeQuestions calls)
       = map (\<lambda>k. (k, length calls)) [1..<Suc (length calls)]"
    by (simp add: analyzeQuestions_def fold_analyzeStep_progressReports del: upt_Suc)
qed (simp_all add: fallbackAnalysis_def)

theorem analyzeQuestions_recovers_witness:
  "loop_analyses (analyzeQuestions [(emailQuestion, Throws), (ticketQuestion, Replies (Some [jiraAnalysis]))])
     = [fallbackAnalysis emailQuestion, jiraAnalysis]
   \<and> loop_processedCount
        (analyzeQuestions [(emailQuestion, Throws), (ticketQuestion, Replies (Some [jiraAnalysis]))]) = 2"
  using analyzeQuestions_recovers[of
      "[(emailQuestion, Throws), (ticketQuestion, Replies (Some [jiraAnalysis]))]"]
  by simp

text \<open>
  Claim C5 as the specification words it fails: the call for question Q1 raises and the
  call for question Q2 returns a body without analyses; the batch then holds the
  fallback for Q1 and no analysis for Q2.
\<close>

theorem analyzeQuestions_reply_without_analyses:
  "map s3_questionId
     (fst (mutationResult [(emailQuestion, Throws), (ticketQuestion, Replies None)])) = [''Q1'']
   \<and> q_id ticketQuestion = Some ''Q2''"
  by code_simp


section \<open>Step four: results\<close>

lemma length_filter_all: "length (filter P xs) = length xs \<longleftrightarrow> (\<forall>x\<in>set xs. P x)"
proof (induction xs)
  case Nil
  then show ?case by simp
next
  case (Cons x xs)
  have le: "length (filter P xs) \<le> length xs" by (rule length_filter_le)
  show ?case
  proof (cases "P x")
    case True
    with Cons show ?thesis by simp
  next
    case False
    from le have "length (filter P xs) \<noteq> Suc (length xs)" by arith
    with False show ?thesis by simp
  qed
qed

text \<open>
  Claim C8. Whatever the execution set is, the gate of step four is true exactly when
  the set is not empty and every execution in it has the status completed. So one
  execution left in failed or no_connector keeps the gate false.
\<close>

theorem canProceedStepFour_iff:
  "(canProceedStepFour executions \<longleftrightarrow>
      executions \<noteq> [] \<and> (\<forall>e\<in>set (map snd executions). ex_status e = Some completed))
   \<and> ((k, e) \<in> set executions \<and> (ex_status e = Some failed \<or> ex_status e = Some no_connector)
        \<longrightarrow> \<not> canProceedStepFour executions)"
proof -
  have iff: "canProceedStepFour executions \<longleftrightarrow>
      executions \<noteq> [] \<and> (\<forall>e\<in>set (map snd executions). ex_status e = Some completed)"
    unfolding canProceedStepFour_def Let_def length_filter_all by auto
  then show ?thesis by force
qed

theorem canProceedStepFour_iff_witness:
  "canProceedStepFour [(''Q1'', executionWith completed)]
   \<and> \<not> canProceedStepFour
         [(''Q1'', executionWith completed), (''Q2'', executionWith no_connector)]
   \<and> \<not> canProceedStepFour []"
  using canProceedStepFour_iff[of "[(''Q1'', executionWith completed)]"]
    canProceedStepFour_iff[of
      "[(''Q1'', executionWith completed), (''Q2'', executionWith no_connector)]"
      "''Q2''" "executionWith no_connector"]
    canProceedStepFour_iff[of "[]"]
  by (simp add: executionWith_def)

text \<open>
  What the result object defaults when the body is not \<^verbatim>\<open>null\<close>, for a draw from 0
  to 49: the summary, the risk level "Low", the compliance status "Compliant", the
  empty findings, and a record count of the draw plus 10, from 10 to 59, when
  \<^verbatim>\<open>dataPoints\<close> is missing or zero.
\<close>

lemma normalizeResult_defaults:
  assumes "0 \<le> draw" and "draw < 50"
  shows "\<exists>result. normalizeResult connector analysis (Some response) draw now = Inr result
       \<and> ((case resp_analysis response of None \<Rightarrow> True | Some a \<Rightarrow> an_executiveSummary a = None)
            \<longrightarrow> r_data result
                  = ''Comprehensive data analysis completed for: ''
                    @ (case s4_originalQuestion analysis of None \<Rightarrow> ''undefined'' | Some s \<Rightarrow> s))
       \<and> ((case resp_analysis response of None \<Rightarrow> True | Some a \<Rightarrow> an_riskLevel a = None)
            \<longrightarrow> r_riskLevel result = ''Low'')
       \<and> ((case resp_analysis response of None \<Rightarrow> True | Some a \<Rightarrow> an_complianceStatus a = None)
            \<longrightarrow> r_complianceStatus result = ''Compliant'')
       \<and> (resp_findings response = None \<longrightarrow> r_findings result = [])
       \<and> (resp_dataPoints response = None \<or> resp_dataPoints response = Some 0
            \<longrightarrow> r_records result = draw + 10 \<and> 10 \<le> r_records result \<and> r_records result \<le> 59)"
  using assms by (auto simp: normalizeResult_def or_str_def split: option.splits)

text \<open>
  Claim C10 says that result normalization is total. The source misses the body
  \<^verbatim>\<open>null\<close>: building the result object raises a \<^verbatim>\<open>TypeError\<close> at the first property
  read, and it does so inside the state updater, so no result is written for the
  execution.
\<close>

theorem normalizeResult_null_reply:
  "normalizeResult sqlConnector sqlAnalysis None 25 200 = Inl TypeError
   \<and> settleAgent [sqlConnector] (Some 1) nullEnv sqlAnalysis
        (bs_executions (fold (startAgent [sqlConnector] nullEnv) [sqlAnalysis]
           \<lparr>bs_executions = [], bs_calls = [], bs_renderFailed = False\<rparr>)) = Inl TypeError"
  by code_simp

lemma statusOf_update:
  "statusOf (AList.update k v execs) k' = (if k' = k then ex_status v else statusOf execs k')"
  by (simp add: statusOf_def update_conv')

lemma prevExecution_status: "ex_status (prevExecution prev k) = statusOf prev k"
  by (simp add: prevExecution_def statusOf_def emptyExecution_def split: option.splits)

lemma startAgent_status:
  "statusOf (bs_executions (startAgent connectors env a bs)) k =
     (if k = s4_id a
      then (case getConnectorForTool connectors (s4_toolSuggestion a) of
              None \<Rightarrow> Some no_connector | Some c \<Rightarrow> Some running)
      else statusOf (bs_executions bs) k)"
  by (simp add: startAgent_def Let_def statusOf_update split: option.splits)

lemma startAgent_calls:
  "bs_calls (startAgent connectors env a bs) =
     bs_calls bs @ (case getConnectorForTool connectors (s4_toolSuggestion a) of
                      None \<Rightarrow> [] | Some c \<Rightarrow> [executeArgs a c])"
  by (simp add: startAgent_def Let_def split: option.splits)

lemma startAgent_renderFailed:
  "bs_renderFailed (startAgent connectors env a bs) = bs_renderFailed bs"
  by (simp add: startAgent_def Let_def split: option.splits)

lemma fold_startAgent_calls:
  "bs_calls (fold (startAgent connectors env) analyses bs) =
     bs_calls bs @ concat (map (\<lambda>a. case getConnectorForTool connectors (s4_toolSuggestion a) of
                                       None \<Rightarrow> [] | Some c \<Rightarrow> [executeArgs a c]) analyses)"
  by (induction analyses arbitrary: bs) (simp_all add: startAgent_calls)

lemma fold_startAgent_renderFailed:
  "bs_renderFailed (fold (startAgent connectors env) analyses bs) = bs_renderFailed bs"
  by (induction analyses arbitrary: bs) (simp_all add: startAgent_renderFailed)

lemma fold_startAgent_other:
  "k \<notin> s4_id ` set analyses \<Longrightarrow>
   statusOf (bs_executions (fold (startAgent connectors env) analyses bs)) k
     = statusOf (bs_executions bs) k"
  by (induction analyses arbitrary: bs) (simp_all add: startAgent_status)

lemma fold_startAgent_status:
  assumes "distinct (map s4_id analyses)" and "a \<in> set analyses"
  shows "statusOf (bs_executions (fold (startAgent connectors env) analyses bs)) (s4_id a) =
           (case getConnectorForTool connectors (s4_toolSuggestion a) of
              None \<Rightarrow> Some no_connector | Some c \<Rightarrow> Some running)"
  using assms
proof (induction analyses arbitrary: bs)
  case Nil
  then show ?case by simp
next
  case (Cons b analyses)
  show ?case
  proof (cases "a \<in> set analyses")
    case True
    with Cons show ?thesis by simp
  next
    case False
    with Cons.prems have ab: "a = b" and "s4_id b \<notin> s4_id ` set analyses" by auto
    then show ?thesis
      by (simp add: fold_startAgent_other startAgent_status)
  qed
qed

lemma tickAgent_status: "statusOf (tickAgent a n execs) k = statusOf execs k"
  by (simp add: tickAgent_def statusOf_update prevExecution_status)

lemma settleAgent_no_connector:
  "getConnectorForTool connectors (s4_toolSuggestion a) = None \<Longrightarrow>
   settleAgent connectors appId env a execs = Inr execs"
  by (simp add: settleAgent_def)

lemma settleAgent_null:
  "getConnectorForTool connectors (s4_toolSuggestion a) = Some c \<Longrightarrow> nullReply appId env c a \<Longrightarrow>
   settleAgent connectors appId env a execs = Inl TypeError"
  by (simp add: settleAgent_def nullReply_def normalizeResult_def)

lemma settleAgent_status:
  assumes "getConnectorForTool connectors (s4_toolSuggestion a) = Some c"
      and "\<not> nullReply appId env c a"
  shows "\<exists>execs'. settleAgent connectors appId env a execs = Inr execs'
           \<and> (\<forall>k. statusOf execs' k
                    = (if k = s4_id a then Some (settledStatus appId env c a)
                       else statusOf execs k))"
  using assms
  by (auto simp: settleAgent_def nullReply_def normalizeResult_def settledStatus_def
        statusOf_update split: AgentOutcome.splits option.splits)

lemma applyEvent_failed:
  "bs_renderFailed bs \<Longrightarrow> applyEvent connectors appId env ev bs = bs"
  by (simp add: applyEvent_def)

lemma applyEvent_Tick:
  "\<not> bs_renderFailed bs \<Longrightarrow>
   applyEvent connectors appId env (Tick a n) bs
     = bs\<lparr>bs_executions := tickAgent a n (bs_executions bs)\<rparr>"
  by (simp add: applyEvent_def)

lemma applyEvent_Settle:
  "\<not> bs_renderFailed bs \<Longrightarrow>
   applyEvent connectors appId env (Settle a) bs
     = (case settleAgent connectors appId env a (bs_executions bs) of
          Inl e \<Rightarrow> bs\<lparr>bs_renderFailed := True\<rparr>
        | Inr executions \<Rightarrow> bs\<lparr>bs_executions := executions\<rparr>)"
  by (simp add: applyEvent_def)

lemma fold_applyEvent_failed:
  "bs_renderFailed bs \<Longrightarrow> fold (applyEvent connectors appId env) events bs = bs"
  by (induction events) (simp_all add: applyEvent_failed)

lemma fold_applyEvent_status:
  assumes "set (settled events) \<subseteq> S" and "inj_on s4_id S" and "b \<in> S"
      and "\<forall>a\<in>S. \<forall>c. getConnectorForTool connectors (s4_toolSuggestion a) = Some c
             \<longrightarrow> \<not> nullReply appId env c a"
      and "\<not> bs_renderFailed bs"
  shows "\<not> bs_renderFailed (fold (applyEvent connectors appId env) events bs)
       \<and> bs_calls (fold (applyEvent connectors appId env) events bs) = bs_calls bs
       \<and> statusOf (bs_executions (fold (applyEvent connectors appId env) events bs)) (s4_id b) =
           (case getConnectorForTool connectors (s4_toolSuggestion b) of
              None \<Rightarrow> statusOf (bs_executions bs) (s4_id b)
            | Some c \<Rightarrow> if b \<in> set (settled events) then Some (settledStatus appId env c b)
                        else statusOf (bs_executions bs) (s4_id b))"
  using assms(1,5)
proof (induction events arbitrary: bs)
  case Nil
  then show ?case by (simp split: option.splits)
next
  case (Cons ev events)
  show ?case
  proof (cases ev)
    case (Tick a n)
    let ?bs = "bs\<lparr>bs_executions := tickAgent a n (bs_executions bs)\<rparr>"
    from Tick Cons.prems have sub: "set (settled events) \<subseteq> S" by simp
    have nf: "\<not> bs_renderFailed ?bs" using Cons.prems by simp
    from Cons.IH[OF sub nf] Tick Cons.prems(2) show ?thesis
      by (simp add: applyEvent_Tick tickAgent_status split: option.splits)
  next
    case (Settle a)
    with Cons.prems have aS: "a \<in> S" and sub: "set (settled events) \<subseteq> S" by simp_all
    from aS assms(2,3) have same: "s4_id b = s4_id a \<longleftrightarrow> b = a" by (auto dest: inj_onD)
    show ?thesis
    proof (cases "getConnectorForTool connectors (s4_toolSuggestion a)")
      case None
      then have step: "applyEvent connectors appId env ev bs = bs"
        using Settle Cons.prems(2)
        by (simp add: applyEvent_Settle settleAgent_no_connector)
      from Cons.IH[OF sub Cons.prems(2)] step Settle None same show ?thesis
        by (auto split: option.splits)
    next
      case (Some c)
      with aS assms(4) have "\<not> nullReply appId env c a" by blast
      from settleAgent_status[OF Some this, of "bs_executions bs"]
      obtain execs' where s: "settleAgent connectors appId env a (bs_executions bs) = Inr execs'"
        and st: "\<And>k. statusOf execs' k
                    = (if k = s4_id a then Some (settledStatus appId env c a)
                       else statusOf (bs_executions bs) k)"
        by blast
      let ?bs = "bs\<lparr>bs_executions := execs'\<rparr>"
      have step: "applyEvent connectors appId env ev bs = ?bs"
        using Settle Cons.prems(2) s by (simp add: applyEvent_Settle)
      have nf: "\<not> bs_renderFailed ?bs" using Cons.prems by simp
      from Cons.IH[OF sub nf] step Settle Some same st show ?thesis
        by (auto split: option.splits)
    qed
  qed
qed

lemma applyEvent_calls: "bs_calls (applyEvent connectors appId env ev bs) = bs_calls bs"
  by (simp add: applyEvent_def split: Event.splits sum.splits)

lemma fold_applyEvent_calls:
  "bs_calls (fold (applyEvent connectors appId env) events bs) = bs_calls bs"
  by (induction events arbitrary: bs) (simp_all add: applyEvent_calls)

lemma fold_applyEvent_alive:
  assumes "set (settled events) \<subseteq> S"
      and "\<forall>a\<in>S. \<forall>c. getConnectorForTool connectors (s4_toolSuggestion a) = Some c
             \<longrightarrow> \<not> nullReply appId env c a"
      and "\<not> bs_renderFailed bs"
  shows "\<not> bs_renderFailed (fold (applyEvent connectors appId env) events bs)"
  using assms(1,3)
proof (induction events arbitrary: bs)
  case Nil
  then show ?case by simp
next
  case (Cons ev events)
  have "\<not> bs_renderFailed (applyEvent connectors appId env ev bs)"
  proof (cases ev)
    case (Tick a n)
    with Cons.prems show ?thesis by (simp add: applyEvent_Tick)
  next
    case (Settle a)
    with Cons.prems have aS: "a \<in> S" by simp
    show ?thesis
    proof (cases "getConnectorForTool connectors (s4_toolSuggestion a)")
      case None
      with Settle Cons.prems(2) show ?thesis
        by (simp add: applyEvent_Settle settleAgent_no_connector)
    next
      case (Some c)
      with aS assms(2) have "\<not> nullReply appId env c a" by blast
      from settleAgent_status[OF Some this, of "bs_executions bs"] Settle Cons.prems(2)
      show ?thesis by (auto simp: applyEvent_Settle)
    qed
  qed
  moreover from Cons.prems have "set (settled events) \<subseteq> S"
    by (cases ev) auto
  ultimately show ?case using Cons.IH by simp
qed

lemma settledStatus_cases:
  "settledStatus appId env c a = completed \<or> settledStatus appId env c a = failed"
  by (simp add: settledStatus_def split: AgentOutcome.splits)

lemma settledStatus_not_no_connector: "settledStatus appId env c a \<noteq> no_connector"
  using settledStatus_cases[of appId env c a] by auto

text \<open>
  The batch when no request comes back with the body \<^verbatim>\<open>null\<close>. Take analyses with
  pairwise distinct ids and a batch run to its end: the request of every analysis that
  has an active connector of the legacy-mapped tool type has come back, in any order
  and with any progress ticks in between. Then every analysis without such a connector
  has the status no_connector and no request was issued for it; every other analysis
  has the status its own request decides, completed when it resolved and failed when
  it raised, whatever happened to the others; and no analysis is left pending, running
  or without a status.
\<close>

lemma executeAllAgents_batch:
  assumes ids: "distinct (map s4_id analyses)"
      and fin: "set (settled events)
                 = {a \<in> set analyses. getConnectorForTool connectors (s4_toolSuggestion a) \<noteq> None}"
      and objects: "\<forall>a\<in>set analyses. \<forall>c.
                      getConnectorForTool connectors (s4_toolSuggestion a) = Some c
                      \<longrightarrow> \<not> nullReply appId env c a"
  shows "(\<forall>a\<in>set analyses.
            statusOf (bs_executions (executeAllAgents connectors appId env analyses events execs))
              (s4_id a)
            = (case getConnectorForTool connectors (s4_toolSuggestion a) of
                 None \<Rightarrow> Some no_connector
               | Some c \<Rightarrow> Some (settledStatus appId env c a)))
       \<and> bs_calls (executeAllAgents connectors appId env analyses events execs)
           = concat (map (\<lambda>a. case getConnectorForTool connectors (s4_toolSuggestion a) of
                                 None \<Rightarrow> [] | Some c \<Rightarrow> [executeArgs a c]) analyses)
       \<and> \<not> bs_renderFailed (executeAllAgents connectors appId env analyses events execs)
       \<and> length (filter (\<lambda>a. statusOf (bs_executions
                     (executeAllAgents connectors appId env analyses events execs)) (s4_id a)
                   = Some no_connector) analyses)
           = length (filter (\<lambda>a. getConnectorForTool connectors (s4_toolSuggestion a) = None)
                       analyses)
       \<and> (\<forall>a\<in>set analyses.
            statusOf (bs_executions (executeAllAgents connectors appId env analyses events execs))
              (s4_id a) \<in> {Some completed, Some failed, Some no_connector})"
proof -
  let ?final = "executeAllAgents connectors appId env analyses events execs"
  let ?started = "fold (startAgent connectors env) analyses
                    \<lparr>bs_executions = execs, bs_calls = [], bs_renderFailed = False\<rparr>"
  have final: "?final = fold (applyEvent connectors appId env) events ?started"
    by (simp add: executeAllAgents_def)
  have inj: "inj_on s4_id (set analyses)" using ids by (simp add: distinct_map)
  have sub: "set (settled events) \<subseteq> set analyses" using fin by auto
  have nf: "\<not> bs_renderFailed ?started" by (simp add: fold_startAgent_renderFailed)
  have status: "statusOf (bs_executions ?final) (s4_id a)
            = (case getConnectorForTool connectors (s4_toolSuggestion a) of
                 None \<Rightarrow> Some no_connector
               | Some c \<Rightarrow> Some (settledStatus appId env c a))" if a: "a \<in> set analyses" for a
    using fold_applyEvent_status[OF sub inj a objects nf] a fin
      fold_startAgent_status[OF ids a, of connectors env]
    unfolding final by (auto split: option.splits)
  have calls: "bs_calls ?final
           = concat (map (\<lambda>a. case getConnectorForTool connectors (s4_toolSuggestion a) of
                                 None \<Rightarrow> [] | Some c \<Rightarrow> [executeArgs a c]) analyses)"
    unfolding final by (simp add: fold_applyEvent_calls fold_startAgent_calls)
  have alive: "\<not> bs_renderFailed ?final"
    unfolding final by (rule fold_applyEvent_alive[OF sub objects nf])
  have "filter (\<lambda>a. statusOf (bs_executions ?final) (s4_id a) = Some no_connector) analyses
        = filter (\<lambda>a. getConnectorForTool connectors (s4_toolSuggestion a) = None) analyses"
  proof (rule filter_cong[OF refl])
    fix a assume "a \<in> set analyses"
    from status[OF this]
    show "(statusOf (bs_executions ?final) (s4_id a) = Some no_connector)
          = (getConnectorForTool connectors (s4_toolSuggestion a) = None)"
      by (auto simp: settledStatus_not_no_connector split: option.splits)
  qed
  then have count:
    "length (filter (\<lambda>a. statusOf (bs_executions ?final) (s4_id a) = Some no_connector) analyses)
     = length (filter (\<lambda>a. getConnectorForTool connectors (s4_toolSuggestion a) = None) analyses)"
    by simp
  have terminal: "statusOf (bs_executions ?final) (s4_id a)
                    \<in> {Some completed, Some failed, Some no_connector}"
    if "a \<in> set analyses" for a
  proof (cases "getConnectorForTool connectors (s4_toolSuggestion a)")
    case None
    with status[OF that] show ?thesis by simp
  next
    case (Some c)
    with status[OF that] settledStatus_cases[of appId env c a] show ?thesis by auto
  qed
  from status calls alive count terminal show ?thesis by blast
qed

text \<open>
  Claim C4 says that every question with a connector ends completed or failed and that
  one execution does not disturb the others. The source misses the body \<^verbatim>\<open>null\<close>:
  the request of Q1 resolves with \<^verbatim>\<open>null\<close>, the updater raises outside the
  \<^verbatim>\<open>try\<close> block, the render fails and Q1 stays running; the request of Q3 raises
  afterwards, which alone would end in failed, and Q3 stays running as well.
\<close>

theorem executeAllAgents_null_reply:
  "run_api (nullEnv sqlAnalysis) = Resolved None
   \<and> run_api (nullEnv failingAnalysis) = Rejected (ErrorObject ''timeout'')
   \<and> statusOf (bs_executions (executeAllAgents [sqlConnector] (Some 1) nullEnv
         [sqlAnalysis, oracleAnalysis, failingAnalysis] nullEvents [])) ''Q1'' = Some running
   \<and> statusOf (bs_executions (executeAllAgents [sqlConnector] (Some 1) nullEnv
         [sqlAnalysis, oracleAnalysis, failingAnalysis] nullEvents [])) ''Q3'' = Some running
   \<and> bs_renderFailed (executeAllAgents [sqlConnector] (Some 1) nullEnv
         [sqlAnalysis, oracleAnalysis, failingAnalysis] nullEvents [])"
  by code_simp

end
